theory Spec2Isabelle
  imports Main "HOL-Library.Char_ord" "HOL-Library.List_Lexorder"
begin

section \<open>Data model\<close>

text \<open>
  The rows of \<^verbatim>\<open>backend/db/schema.py\<close> and the Pydantic models of
  \<^verbatim>\<open>backend/models\<close>. A \<^verbatim>\<open>Category\<close> or \<^verbatim>\<open>Tag\<close> is stored as the dict that
  \<^verbatim>\<open>model_dump()\<close> gives, with exactly the keys \<^verbatim>\<open>name\<close> and \<^verbatim>\<open>color\<close>.
  The two JSON columns of a user hold a list, or Python's \<^verbatim>\<open>None\<close> (which the
  services read as \<^verbatim>\<open>user.categories or []\<close>).
\<close>

record Category =
  cat_name :: string
  cat_color :: string

record Tag =
  tag_name :: string
  tag_color :: string

record User =
  user_id :: int
  username :: string
  email :: string
  hashed_password :: string
  full_name :: string
  disabled :: bool
  categories :: "Category list option"
  tags :: "Tag list option"

type_synonym datetime = int

datatype json = J_null | J_bool bool | J_int int | J_str string
  | J_list "json list" | J_obj "(string \<times> json) list"

record Task =
  task_id :: int
  owner_id :: int
  name :: string
  description :: string
  category :: string
  dueDate :: "datetime option"
  parameters :: "(string \<times> json) list"
  completed :: bool
  task_tags :: "string list option"
  priority :: int

text \<open>
  The session's view of the database: the two tables in insertion order, the two
  autoincrement sequences (the next identity each table hands out) and the number of
  commits made so far.
\<close>

record db =
  users :: "User list"
  tasks :: "Task list"
  users_id_seq :: int
  tasks_id_seq :: int
  commits :: nat

datatype error = IntegrityError | CategoryException | TagException | ValidationError
  | HTTPException nat

definition commit :: "db \<Rightarrow> db" where
  "commit d = d\<lparr>commits := commits d + 1\<rparr>"

text \<open>\<^verbatim>\<open>x or []\<close> on a list that may be \<^verbatim>\<open>None\<close>.\<close>

definition or_empty :: "'a list option \<Rightarrow> 'a list" where
  "or_empty v = (case v of None \<Rightarrow> [] | Some xs \<Rightarrow> xs)"

text \<open>
  Writing a changed row back: the flush is \<^verbatim>\<open>UPDATE ... WHERE id = :pk\<close>, with the
  primary key the row was loaded with.
\<close>

definition write_user :: "int \<Rightarrow> User \<Rightarrow> User list \<Rightarrow> User list" where
  "write_user pk u rows = map (\<lambda>r. if user_id r = pk then u else r) rows"

definition write_task :: "int \<Rightarrow> Task \<Rightarrow> Task list \<Rightarrow> Task list" where
  "write_task pk t rows = map (\<lambda>r. if task_id r = pk then t else r) rows"

section \<open>User service\<close>

text \<open>\<^verbatim>\<open>query(User).filter(User.id == user_id).first()\<close>\<close>

definition get_user :: "db \<Rightarrow> int \<Rightarrow> User option" where
  "get_user d uid = find (\<lambda>u. user_id u = uid) (users d)"

definition get_user_by_username :: "db \<Rightarrow> string \<Rightarrow> User option" where
  "get_user_by_username d n = find (\<lambda>u. username u = n) (users d)"

text \<open>
  The loop of \<^verbatim>\<open>create_category\<close>: the first entry with the category's name is
  overwritten and the loop breaks; the flag is \<^verbatim>\<open>category_exists\<close>.
\<close>

fun replace_category :: "Category list \<Rightarrow> Category \<Rightarrow> Category list \<times> bool" where
  "replace_category [] c = ([], False)"
| "replace_category (e # es) c =
     (if cat_name e = cat_name c then (c # es, True)
      else (case replace_category es c of (es', found) \<Rightarrow> (e # es', found)))"

definition create_category :: "db \<Rightarrow> int \<Rightarrow> Category \<Rightarrow> Category option \<times> db" where
  "create_category d uid c =
     (case get_user d uid of
        None \<Rightarrow> (None, d)
      | Some user \<Rightarrow>
          (case replace_category (or_empty (categories user)) c of
             (categories_list, category_exists) \<Rightarrow>
               let categories_list' =
                     (if \<not> category_exists then categories_list @ [c] else categories_list);
                   user' = user\<lparr>categories := Some categories_list'\<rparr>
               in (Some c, commit (d\<lparr>users := write_user (user_id user) user' (users d)\<rparr>))))"

fun replace_tag :: "Tag list \<Rightarrow> Tag \<Rightarrow> Tag list \<times> bool" where
  "replace_tag [] c = ([], False)"
| "replace_tag (e # es) c =
     (if tag_name e = tag_name c then (c # es, True)
      else (case replace_tag es c of (es', found) \<Rightarrow> (e # es', found)))"

definition create_tag :: "db \<Rightarrow> int \<Rightarrow> Tag \<Rightarrow> Tag option \<times> db" where
  "create_tag d uid c =
     (case get_user d uid of
        None \<Rightarrow> (None, d)
      | Some user \<Rightarrow>
          (case replace_tag (or_empty (tags user)) c of
             (tag_list, tag_exists) \<Rightarrow>
               let tag_list' = (if \<not> tag_exists then tag_list @ [c] else tag_list);
                   user' = user\<lparr>tags := Some tag_list'\<rparr>
               in (Some c, commit (d\<lparr>users := write_user (user_id user) user' (users d)\<rparr>))))"

text \<open>
  \<^verbatim>\<open>delete_category\<close> and \<^verbatim>\<open>delete_tag\<close>: one pass that sorts every entry into the
  deleted or the kept list; the kept list is written back in every case.
\<close>

fun split_categories :: "Category list \<Rightarrow> string \<Rightarrow> Category list \<times> Category list" where
  "split_categories [] n = ([], [])"
| "split_categories (cat # cats) n =
     (case split_categories cats n of (deleted_categories, new_categories) \<Rightarrow>
        if cat_name cat = n then (cat # deleted_categories, new_categories)
        else (deleted_categories, cat # new_categories))"

definition delete_category :: "db \<Rightarrow> int \<Rightarrow> string \<Rightarrow> Category list option \<times> db" where
  "delete_category d uid category_name =
     (case get_user d uid of
        None \<Rightarrow> (None, d)
      | Some user \<Rightarrow>
          (case split_categories (or_empty (categories user)) category_name of
             (deleted_categories, new_categories) \<Rightarrow>
               let user' = user\<lparr>categories := Some new_categories\<rparr>
               in (Some deleted_categories,
                   commit (d\<lparr>users := write_user (user_id user) user' (users d)\<rparr>))))"

fun split_tags :: "Tag list \<Rightarrow> string \<Rightarrow> Tag list \<times> Tag list" where
  "split_tags [] n = ([], [])"
| "split_tags (tag # tgs) n =
     (case split_tags tgs n of (deleted_tags, new_tags) \<Rightarrow>
        if tag_name tag = n then (tag # deleted_tags, new_tags)
        else (deleted_tags, tag # new_tags))"

definition delete_tag :: "db \<Rightarrow> int \<Rightarrow> string \<Rightarrow> Tag list option \<times> db" where
  "delete_tag d uid tag_name' =
     (case get_user d uid of
        None \<Rightarrow> (None, d)
      | Some user \<Rightarrow>
          (case split_tags (or_empty (tags user)) tag_name' of
             (deleted_tags, new_tags) \<Rightarrow>
               let user' = user\<lparr>tags := Some new_tags\<rparr>
               in (Some deleted_tags,
                   commit (d\<lparr>users := write_user (user_id user) user' (users d)\<rparr>))))"

definition user_get_categories :: "db \<Rightarrow> int \<Rightarrow> Category list" where
  "user_get_categories d uid =
     (case get_user d uid of None \<Rightarrow> [] | Some user \<Rightarrow> or_empty (categories user))"

definition user_get_tags :: "db \<Rightarrow> int \<Rightarrow> Tag list" where
  "user_get_tags d uid =
     (case get_user d uid of None \<Rightarrow> [] | Some user \<Rightarrow> or_empty (tags user))"

text \<open>
  Building a \<^verbatim>\<open>Category\<close> or a \<^verbatim>\<open>Tag\<close> from a dict runs the name validator:
  an empty or blank name raises, any other name is stored stripped. A \<open>char\<close> is read
  as a code point below 256 (strings with higher code points are outside the model);
  \<^verbatim>\<open>str.strip()\<close> removes the code points for which \<^verbatim>\<open>str.isspace()\<close> holds, which
  below 256 are 0x09 to 0x0D, 0x1C to 0x1F, 0x20, 0x85 and 0xA0.
\<close>

definition py_isspace :: "char \<Rightarrow> bool" where
  "py_isspace c \<longleftrightarrow> c \<in> set [CHR 0x09, CHR 0x0A, CHR 0x0B, CHR 0x0C, CHR 0x0D,
     CHR 0x1C, CHR 0x1D, CHR 0x1E, CHR 0x1F, CHR 0x20, CHR 0x85, CHR 0xA0]"

definition py_strip :: "string \<Rightarrow> string" where
  "py_strip s = rev (dropWhile py_isspace (rev (dropWhile py_isspace s)))"

definition Category_of :: "Category \<Rightarrow> error + Category" where
  "Category_of cat =
     (if cat_name cat = [] \<or> py_strip (cat_name cat) = [] then Inl CategoryException
      else Inr (cat\<lparr>cat_name := py_strip (cat_name cat)\<rparr>))"

definition Tag_of :: "Tag \<Rightarrow> error + Tag" where
  "Tag_of tag =
     (if tag_name tag = [] \<or> py_strip (tag_name tag) = [] then Inl TagException
      else Inr (tag\<lparr>tag_name := py_strip (tag_name tag)\<rparr>))"

text \<open>A list comprehension over a constructor that may raise: the first failure wins.\<close>

fun map_result :: "('a \<Rightarrow> error + 'b) \<Rightarrow> 'a list \<Rightarrow> error + 'b list" where
  "map_result f [] = Inr []"
| "map_result f (x # xs) =
     (case f x of
        Inl e \<Rightarrow> Inl e
      | Inr y \<Rightarrow> (case map_result f xs of Inl e \<Rightarrow> Inl e | Inr ys \<Rightarrow> Inr (y # ys)))"

text \<open>
  The dict handed to \<^verbatim>\<open>update_user\<close>, as its list of items. An item is a column of
  \<^verbatim>\<open>User\<close> with a value of the column's type (\<^verbatim>\<open>None\<close> allowed for the two JSON columns,
  which the code tests for), or \<open>UItem_other\<close>: a key that is no attribute of the row.
\<close>

datatype user_item =
    UItem_id int
  | UItem_username string
  | UItem_email string
  | UItem_hashed_password string
  | UItem_full_name string
  | UItem_disabled bool
  | UItem_categories "Category list option"
  | UItem_tags "Tag list option"
  | UItem_other string json

fun user_item_key :: "user_item \<Rightarrow> string" where
  "user_item_key (UItem_id v) = ''id''"
| "user_item_key (UItem_username v) = ''username''"
| "user_item_key (UItem_email v) = ''email''"
| "user_item_key (UItem_hashed_password v) = ''hashed_password''"
| "user_item_key (UItem_full_name v) = ''full_name''"
| "user_item_key (UItem_disabled v) = ''disabled''"
| "user_item_key (UItem_categories v) = ''categories''"
| "user_item_key (UItem_tags v) = ''tags''"
| "user_item_key (UItem_other k v) = k"

fun hasattr_user :: "user_item \<Rightarrow> bool" where
  "hasattr_user (UItem_other k v) = False"
| "hasattr_user item = True"

fun setattr_user :: "User \<Rightarrow> user_item \<Rightarrow> User" where
  "setattr_user user (UItem_id v) = user\<lparr>user_id := v\<rparr>"
| "setattr_user user (UItem_username v) = user\<lparr>username := v\<rparr>"
| "setattr_user user (UItem_email v) = user\<lparr>email := v\<rparr>"
| "setattr_user user (UItem_hashed_password v) = user\<lparr>hashed_password := v\<rparr>"
| "setattr_user user (UItem_full_name v) = user\<lparr>full_name := v\<rparr>"
| "setattr_user user (UItem_disabled v) = user\<lparr>disabled := v\<rparr>"
| "setattr_user user (UItem_categories v) = user\<lparr>categories := v\<rparr>"
| "setattr_user user (UItem_tags v) = user\<lparr>tags := v\<rparr>"
| "setattr_user user (UItem_other k v) = user"

text \<open>The loop of \<^verbatim>\<open>update_user\<close> over \<^verbatim>\<open>user_data.items()\<close>.\<close>

fun update_user_fields :: "User \<Rightarrow> user_item list \<Rightarrow> error + User" where
  "update_user_fields user [] = Inr user"
| "update_user_fields user (item # items) =
     (if hasattr_user item \<and> user_item_key item \<noteq> ''id'' then
        (case item of
           UItem_categories (Some value) \<Rightarrow>
             (case map_result Category_of value of
                Inl e \<Rightarrow> Inl e
              | Inr cats \<Rightarrow> update_user_fields (user\<lparr>categories := Some cats\<rparr>) items)
         | UItem_tags (Some value) \<Rightarrow>
             (case map_result Tag_of value of
                Inl e \<Rightarrow> Inl e
              | Inr tgs \<Rightarrow> update_user_fields (user\<lparr>tags := Some tgs\<rparr>) items)
         | _ \<Rightarrow> update_user_fields (setattr_user user item) items)
      else update_user_fields user items)"

text \<open>
  \<^verbatim>\<open>update_user\<close>. A commit that breaks \<^verbatim>\<open>unique=True\<close> of \<^verbatim>\<open>users.username\<close> raises;
  the handler rolls back and raises again, so nothing is written.
\<close>

definition update_user :: "db \<Rightarrow> int \<Rightarrow> user_item list \<Rightarrow> error + (User option \<times> db)" where
  "update_user d uid user_data =
     (case get_user d uid of
        None \<Rightarrow> Inr (None, d)
      | Some user \<Rightarrow>
          (case update_user_fields user user_data of
             Inl e \<Rightarrow> Inl e
           | Inr user' \<Rightarrow>
               if username user' \<noteq> username user
                  \<and> username user' \<in> set (map username (users d))
               then Inl IntegrityError
               else Inr (Some user',
                         commit (d\<lparr>users := write_user (user_id user) user' (users d)\<rparr>))))"

text \<open>
  \<^verbatim>\<open>UserCreate\<close>: the validated registration object, and its construction from keyword
  arguments. The two list arguments may be left out, and then take the class's defaults
  (which are not validated: the model does not set \<^verbatim>\<open>validate_default\<close>).
\<close>

record UserCreate =
  uc_username :: string
  uc_email :: "string option"
  uc_password :: string
  uc_full_name :: "string option"
  uc_categories :: "Category list option"
  uc_tags :: "Tag list option"

datatype 'a arg = Omitted | Given 'a

definition validate_categories :: "Category list option \<Rightarrow> error + Category list option" where
  "validate_categories cats =
     (case cats of
        None \<Rightarrow> Inr None
      | Some cs \<Rightarrow>
          (let names = map cat_name cs
           in if length names \<noteq> length (remdups names) then Inl CategoryException
              else Inr (Some cs)))"

definition validate_tags :: "Tag list option \<Rightarrow> error + Tag list option" where
  "validate_tags tgs =
     (case tgs of
        None \<Rightarrow> Inr None
      | Some ts \<Rightarrow>
          (let names = map tag_name ts
           in if length names \<noteq> length (remdups names) then Inl TagException
              else Inr (Some ts)))"

definition default_categories :: "Category list option" where
  "default_categories = Some [\<lparr>cat_name = ''General'', cat_color = ''#5dafb0''\<rparr>]"

definition new_UserCreate ::
  "string \<Rightarrow> string option \<Rightarrow> string \<Rightarrow> string option
     \<Rightarrow> Category list option arg \<Rightarrow> Tag list option arg \<Rightarrow> error + UserCreate" where
  "new_UserCreate uname mail pw fname cats tgs =
     (case (case cats of Omitted \<Rightarrow> Inr default_categories | Given v \<Rightarrow> validate_categories v) of
        Inl e \<Rightarrow> Inl e
      | Inr cats' \<Rightarrow>
          (case (case tgs of Omitted \<Rightarrow> Inr None | Given v \<Rightarrow> validate_tags v) of
             Inl e \<Rightarrow> Inl e
           | Inr tgs' \<Rightarrow>
               Inr \<lparr>uc_username = uname, uc_email = mail, uc_password = pw,
                    uc_full_name = fname, uc_categories = cats', uc_tags = tgs'\<rparr>))"

text \<open>\<^verbatim>\<open>x or ""\<close> on a string that may be \<^verbatim>\<open>None\<close>.\<close>

definition or_blank :: "string option \<Rightarrow> string" where
  "or_blank v = (case v of None \<Rightarrow> [] | Some s \<Rightarrow> s)"

text \<open>
  \<^verbatim>\<open>UserService.create_user\<close>. The identity comes from the table's sequence; a commit
  that breaks the primary key or \<^verbatim>\<open>unique=True\<close> of \<^verbatim>\<open>users.username\<close> raises and is
  rolled back.
\<close>

definition create_user :: "db \<Rightarrow> UserCreate \<Rightarrow> error + (User \<times> db)" where
  "create_user d user_create =
     (let categories_dict = or_empty (uc_categories user_create);
          tags_dict = or_empty (uc_tags user_create);
          user = \<lparr>user_id = users_id_seq d,
                  username = uc_username user_create,
                  email = or_blank (uc_email user_create),
                  hashed_password = uc_password user_create,
                  full_name = or_blank (uc_full_name user_create),
                  disabled = False,
                  categories = Some categories_dict,
                  tags = Some tags_dict\<rparr>
      in if user_id user \<in> set (map user_id (users d))
            \<or> username user \<in> set (map username (users d))
         then Inl IntegrityError
         else Inr (user, commit (d\<lparr>users := users d @ [user],
                                     users_id_seq := users_id_seq d + 1\<rparr>)))"

text \<open>
  The route \<^verbatim>\<open>POST /register\<close> of \<^verbatim>\<open>api/v1/user.py\<close>. The password hash is the auth
  service's \<^verbatim>\<open>get_password_hash\<close>, a library call, taken as a parameter. Any exception
  other than the route's own 400 leaves as status 500.
\<close>

definition register :: "(string \<Rightarrow> string) \<Rightarrow> db \<Rightarrow> UserCreate \<Rightarrow> error + (User \<times> db)" where
  "register get_password_hash d user =
     (case get_user_by_username d (uc_username user) of
        Some existing_user \<Rightarrow> Inl (HTTPException 400)
      | None \<Rightarrow>
          (case new_UserCreate (uc_username user) (uc_email user)
                  (get_password_hash (uc_password user)) (uc_full_name user) Omitted Omitted of
             Inl e \<Rightarrow> Inl (HTTPException 500)
           | Inr user_with_hashed_password \<Rightarrow>
               (case create_user d user_with_hashed_password of
                  Inl e \<Rightarrow> Inl (HTTPException 500)
                | Inr r \<Rightarrow> Inr r)))"

section \<open>Task models\<close>

text \<open>
  \<^verbatim>\<open>TaskCreate\<close>: the validated draft that reaches the store, and its construction from
  keyword arguments (\<open>None\<close>: the argument is left out and the field takes its default;
  \<^verbatim>\<open>validate_default\<close> then runs the field's validator on the default). The model's
  \<^verbatim>\<open>str_strip_whitespace\<close> trims every string the parser reads, before the field's
  validator runs: the three string fields, each tag of the tag list and each key of the
  parameter map (the values of the map are \<^verbatim>\<open>Any\<close> and pass unchanged). The trim removes
  the code points with the Unicode property White_Space, which below 256 are 0x09 to
  0x0D, 0x20, 0x85 and 0xA0.
\<close>

record TaskCreate =
  tc_owner_id :: int
  tc_name :: string
  tc_description :: string
  tc_category :: string
  tc_dueDate :: "datetime option"
  tc_parameters :: "(string \<times> json) list"
  tc_completed :: bool
  tc_tags :: "string list option"
  tc_priority :: int


definition is_whitespace :: "char \<Rightarrow> bool" where
  "is_whitespace c \<longleftrightarrow> c \<in> set [CHR 0x09, CHR 0x0A, CHR 0x0B, CHR 0x0C, CHR 0x0D, CHR 0x20,
     CHR 0x85, CHR 0xA0]"

definition trim :: "string \<Rightarrow> string" where
  "trim s = rev (dropWhile is_whitespace (rev (dropWhile is_whitespace s)))"

text \<open>
  Building the dict of a \<^verbatim>\<open>Dict[str, Any]\<close> field: the entries are stored one by one
  under their trimmed keys, so a key that comes again overwrites the value at the place
  the key already has.
\<close>

fun dict_set :: "string \<Rightarrow> json \<Rightarrow> (string \<times> json) list \<Rightarrow> (string \<times> json) list" where
  "dict_set k v [] = [(k, v)]"
| "dict_set k v ((k', v') # kvs) =
     (if k' = k then (k, v) # kvs else (k', v') # dict_set k v kvs)"

definition strip_keys :: "(string \<times> json) list \<Rightarrow> (string \<times> json) list" where
  "strip_keys ps = fold (\<lambda>(k, v) acc. dict_set (trim k) v acc) ps []"






definition validate_priority :: "int \<Rightarrow> error + int" where
  "validate_priority v = (if v < 0 \<or> v > 3 then Inl ValidationError else Inr v)"


section \<open>Task service\<close>

text \<open>\<^verbatim>\<open>query(Task).filter(Task.id == task_id, Task.owner_id == owner_id).first()\<close>\<close>

definition get_task :: "db \<Rightarrow> int \<Rightarrow> int \<Rightarrow> Task option" where
  "get_task d oid tid = find (\<lambda>t. task_id t = tid \<and> owner_id t = oid) (tasks d)"

definition list_tasks :: "db \<Rightarrow> int \<Rightarrow> Task list" where
  "list_tasks d oid = (if oid \<noteq> 0 then filter (\<lambda>t. owner_id t = oid) (tasks d) else [])"

text \<open>
  \<^verbatim>\<open>create_task\<close>. The identity comes from the table's sequence. The commit raises when
  the new row breaks the primary key or the foreign key \<^verbatim>\<open>ForeignKey("users.id")\<close> of
  \<^verbatim>\<open>owner_id\<close>; the handler rolls back and raises again.
\<close>

definition create_task :: "db \<Rightarrow> TaskCreate \<Rightarrow> error + (Task \<times> db)" where
  "create_task d task_data =
     (let task = \<lparr>task_id = tasks_id_seq d,
                  owner_id = tc_owner_id task_data,
                  name = tc_name task_data,
                  description = tc_description task_data,
                  category = tc_category task_data,
                  dueDate = tc_dueDate task_data,
                  parameters = tc_parameters task_data,
                  completed = tc_completed task_data,
                  task_tags = tc_tags task_data,
                  priority = tc_priority task_data\<rparr>
      in if task_id task \<in> set (map task_id (tasks d))
            \<or> owner_id task \<notin> set (map user_id (users d))
         then Inl IntegrityError
         else Inr (task, commit (d\<lparr>tasks := tasks d @ [task],
                                     tasks_id_seq := tasks_id_seq d + 1\<rparr>)))"

text \<open>
  The dict handed to \<^verbatim>\<open>update_task\<close>, as its list of items: a column of \<^verbatim>\<open>Task\<close> with
  a value of the column's type, or \<open>Item_other\<close>: a key that is no attribute of the row.
\<close>

datatype task_item =
    Item_id int
  | Item_owner_id int
  | Item_name string
  | Item_description string
  | Item_category string
  | Item_dueDate "datetime option"
  | Item_parameters "(string \<times> json) list"
  | Item_completed bool
  | Item_tags "string list option"
  | Item_priority int
  | Item_other string json

fun item_key :: "task_item \<Rightarrow> string" where
  "item_key (Item_id v) = ''id''"
| "item_key (Item_owner_id v) = ''owner_id''"
| "item_key (Item_name v) = ''name''"
| "item_key (Item_description v) = ''description''"
| "item_key (Item_category v) = ''category''"
| "item_key (Item_dueDate v) = ''dueDate''"
| "item_key (Item_parameters v) = ''parameters''"
| "item_key (Item_completed v) = ''completed''"
| "item_key (Item_tags v) = ''tags''"
| "item_key (Item_priority v) = ''priority''"
| "item_key (Item_other k v) = k"

fun hasattr_task :: "task_item \<Rightarrow> bool" where
  "hasattr_task (Item_other k v) = False"
| "hasattr_task item = True"

fun setattr_task :: "Task \<Rightarrow> task_item \<Rightarrow> Task" where
  "setattr_task task (Item_id v) = task\<lparr>task_id := v\<rparr>"
| "setattr_task task (Item_owner_id v) = task\<lparr>owner_id := v\<rparr>"
| "setattr_task task (Item_name v) = task\<lparr>name := v\<rparr>"
| "setattr_task task (Item_description v) = task\<lparr>description := v\<rparr>"
| "setattr_task task (Item_category v) = task\<lparr>category := v\<rparr>"
| "setattr_task task (Item_dueDate v) = task\<lparr>dueDate := v\<rparr>"
| "setattr_task task (Item_parameters v) = task\<lparr>parameters := v\<rparr>"
| "setattr_task task (Item_completed v) = task\<lparr>completed := v\<rparr>"
| "setattr_task task (Item_tags v) = task\<lparr>task_tags := v\<rparr>"
| "setattr_task task (Item_priority v) = task\<lparr>priority := v\<rparr>"
| "setattr_task task (Item_other k v) = task"

fun update_task_fields :: "Task \<Rightarrow> task_item list \<Rightarrow> Task" where
  "update_task_fields task [] = task"
| "update_task_fields task (item # items) =
     (if hasattr_task item then update_task_fields (setattr_task task item) items
      else update_task_fields task items)"

text \<open>
  \<^verbatim>\<open>update_task\<close>. The commit raises when the dict moved the row onto another row's
  primary key or onto an owner that is no user; the handler rolls back and raises again.
\<close>

definition update_task :: "db \<Rightarrow> int \<Rightarrow> int \<Rightarrow> task_item list \<Rightarrow> error + (Task option \<times> db)" where
  "update_task d oid tid task_data =
     (case get_task d oid tid of
        None \<Rightarrow> Inr (None, d)
      | Some task \<Rightarrow>
          (let task' = update_task_fields task task_data
           in if (task_id task' \<noteq> task_id task \<and> task_id task' \<in> set (map task_id (tasks d)))
                 \<or> (owner_id task' \<noteq> owner_id task
                     \<and> owner_id task' \<notin> set (map user_id (users d)))
              then Inl IntegrityError
              else Inr (Some task',
                        commit (d\<lparr>tasks := write_task (task_id task) task' (tasks d)\<rparr>))))"

text \<open>\<^verbatim>\<open>remove_task\<close>: the flush is \<^verbatim>\<open>DELETE FROM tasks WHERE id = :pk\<close>.\<close>

definition remove_task :: "db \<Rightarrow> int \<Rightarrow> int \<Rightarrow> bool \<times> db" where
  "remove_task d oid tid =
     (case get_task d oid tid of
        None \<Rightarrow> (False, d)
      | Some task \<Rightarrow>
          (True, commit (d\<lparr>tasks := filter (\<lambda>r. task_id r \<noteq> task_id task) (tasks d)\<rparr>)))"

definition mark_task_complete :: "db \<Rightarrow> int \<Rightarrow> int \<Rightarrow> bool \<times> db" where
  "mark_task_complete d oid tid =
     (case get_task d oid tid of
        None \<Rightarrow> (False, d)
      | Some task \<Rightarrow>
          if completed task then (True, d)
          else (True, commit (d\<lparr>tasks :=
                  write_task (task_id task) (task\<lparr>completed := True\<rparr>) (tasks d)\<rparr>)))"

text \<open>
  \<^verbatim>\<open>TaskService.get_categories\<close>. \<^verbatim>\<open>.distinct(Task.category)\<close> keeps one row for each
  category (here the first), \<^verbatim>\<open>set(...)\<close> one of each label, \<^verbatim>\<open>sorted\<close> orders them.
\<close>

fun distinct_on :: "('a \<Rightarrow> 'k) \<Rightarrow> 'a list \<Rightarrow> 'a list" where
  "distinct_on key [] = []"
| "distinct_on key (r # rs) = r # distinct_on key (filter (\<lambda>x. key x \<noteq> key r) rs)"

definition task_get_categories :: "db \<Rightarrow> int \<Rightarrow> string list" where
  "task_get_categories d oid =
     (let query = distinct_on category (filter (\<lambda>t. owner_id t = oid) (tasks d));
          categories = remdups (map category query)
      in sort categories)"

text \<open>
  \<^verbatim>\<open>TaskUpdate\<close>: the validated payload of \<^verbatim>\<open>PUT /tasks/{task_id}\<close>, and its construction
  from the request body (\<open>None\<close>: the key is absent from the body and the field takes its
  default, on which \<^verbatim>\<open>validate_default\<close> runs the validator). Every field is optional
  with default \<^verbatim>\<open>None\<close>, except \<^verbatim>\<open>priority: int = 0\<close>.
\<close>

record TaskUpdate =
  tu_name :: "string option"
  tu_description :: "string option"
  tu_category :: "string option"
  tu_dueDate :: "datetime option"
  tu_parameters :: "(string \<times> json) list option"
  tu_completed :: "bool option"
  tu_tags :: "string list option"
  tu_priority :: int

record TaskUpdateBody =
  b_name :: "string option"
  b_description :: "string option"
  b_category :: "string option"
  b_dueDate :: "datetime option"
  b_parameters :: "(string \<times> json) list option"
  b_completed :: "bool option"
  b_tags :: "string list option"
  b_priority :: "int option"

definition validate_update_name :: "string option \<Rightarrow> error + string option" where
  "validate_update_name v =
     (case v of
        None \<Rightarrow> Inr None
      | Some s \<Rightarrow> if s = [] \<or> py_strip s = [] then Inl ValidationError
                else Inr (Some (py_strip s)))"

definition validate_update_text :: "string option \<Rightarrow> string option" where
  "validate_update_text v =
     (case v of None \<Rightarrow> None | Some s \<Rightarrow> if s \<noteq> [] then Some (py_strip s) else None)"

definition new_TaskUpdate :: "TaskUpdateBody \<Rightarrow> error + TaskUpdate" where
  "new_TaskUpdate b =
     (case (validate_update_name (map_option trim (b_name b)),
            validate_priority (case b_priority b of None \<Rightarrow> 0 | Some p \<Rightarrow> p)) of
        (Inr nm, Inr pr) \<Rightarrow>
          Inr \<lparr>tu_name = nm,
               tu_description = validate_update_text (map_option trim (b_description b)),
               tu_category = validate_update_text (map_option trim (b_category b)),
               tu_dueDate = b_dueDate b,
               tu_parameters = map_option strip_keys (b_parameters b),
               tu_completed = b_completed b,
               tu_tags = map_option (map trim) (b_tags b),
               tu_priority = pr\<rparr>
      | _ \<Rightarrow> Inl ValidationError)"

text \<open>
  The route builds the dict for \<^verbatim>\<open>update_task\<close> from the payload:
  \<^verbatim>\<open>{k: v for k, v in payload.model_dump().items() if v is not None}\<close>.
\<close>

definition update_data :: "TaskUpdate \<Rightarrow> task_item list" where
  "update_data payload =
     (case tu_name payload of None \<Rightarrow> [] | Some v \<Rightarrow> [Item_name v])
     @ (case tu_description payload of None \<Rightarrow> [] | Some v \<Rightarrow> [Item_description v])
     @ (case tu_category payload of None \<Rightarrow> [] | Some v \<Rightarrow> [Item_category v])
     @ (case tu_dueDate payload of None \<Rightarrow> [] | Some v \<Rightarrow> [Item_dueDate (Some v)])
     @ (case tu_parameters payload of None \<Rightarrow> [] | Some v \<Rightarrow> [Item_parameters v])
     @ (case tu_completed payload of None \<Rightarrow> [] | Some v \<Rightarrow> [Item_completed v])
     @ (case tu_tags payload of None \<Rightarrow> [] | Some v \<Rightarrow> [Item_tags (Some v)])
     @ [Item_priority (tu_priority payload)]"

text \<open>
  The route \<^verbatim>\<open>PUT /tasks/{task_id}\<close> of \<^verbatim>\<open>api/v1/task_api.py\<close>, for the current user's
  id. Its \<^verbatim>\<open>except Exception\<close> turns every exception of the body into status 500, the
  404 that the body raises for a missing task included.
\<close>

definition update_task_route :: "db \<Rightarrow> int \<Rightarrow> int \<Rightarrow> TaskUpdate \<Rightarrow> error + (Task \<times> db)" where
  "update_task_route d current_user_id tid payload =
     (case update_task d current_user_id tid (update_data payload) of
        Inl e \<Rightarrow> Inl (HTTPException 500)
      | Inr (None, d') \<Rightarrow> Inl (HTTPException 500)
      | Inr (Some updated_task, d') \<Rightarrow> Inr (updated_task, d'))"

section \<open>The JSON-file task service\<close>

text \<open>
  \<^verbatim>\<open>TaskServiceJson\<close> keeps the tasks as a list of dicts in a file. A dict is read with
  \<^verbatim>\<open>.get\<close>, so every key may be missing (\<open>None\<close>); \<^verbatim>\<open>TaskRead(**task)\<close> raises when a
  required key is.
\<close>

record JsonTask =
  j_id :: "int option"
  j_task_id :: "int option"
  j_owner_id :: "int option"
  j_name :: "string option"
  j_description :: "string option"
  j_category :: "string option"
  j_dueDate :: "datetime option"
  j_parameters :: "(string \<times> json) list option"
  j_completed :: "bool option"
  j_tags :: "string list option"
  j_priority :: "int option"

definition TaskRead :: "JsonTask \<Rightarrow> error + Task" where
  "TaskRead r =
     (case (j_id r, j_owner_id r, j_name r, j_description r, j_category r, j_parameters r) of
        (Some i, Some ow, Some n, Some de, Some c, Some ps) \<Rightarrow>
          Inr \<lparr>task_id = i, owner_id = ow, name = n, description = de, category = c,
               dueDate = j_dueDate r, parameters = ps,
               completed = (case j_completed r of None \<Rightarrow> False | Some b \<Rightarrow> b),
               task_tags = j_tags r,
               priority = (case j_priority r of None \<Rightarrow> 0 | Some p \<Rightarrow> p)\<rparr>
      | _ \<Rightarrow> Inl ValidationError)"

definition json_get_task :: "JsonTask list \<Rightarrow> int \<Rightarrow> int \<Rightarrow> error + Task option" where
  "json_get_task file oid tid =
     (case find (\<lambda>task. j_id task = Some tid \<and> j_owner_id task = Some oid) file of
        None \<Rightarrow> Inr None
      | Some task \<Rightarrow> (case TaskRead task of Inl e \<Rightarrow> Inl e | Inr t \<Rightarrow> Inr (Some t)))"

definition matches :: "int \<Rightarrow> int \<Rightarrow> JsonTask \<Rightarrow> bool" where
  "matches oid tid rem_t =
     (let stored_id = (if j_id rem_t \<noteq> None then j_id rem_t else j_task_id rem_t)
      in stored_id = Some tid \<and> j_owner_id rem_t = Some oid)"

definition json_remove_task :: "JsonTask list \<Rightarrow> int \<Rightarrow> int \<Rightarrow> bool \<times> JsonTask list" where
  "json_remove_task file oid tid =
     (let new_tasks = filter (\<lambda>t. \<not> matches oid tid t) file
      in if length new_tasks = length file then (False, file) else (True, new_tasks))"

text \<open>
  \<^verbatim>\<open>list(s)\<close> of a set gives its elements once each, in the set's iteration order,
  which the language leaves open: any such list is a possible result.
\<close>

definition list_of_set :: "'a set \<Rightarrow> 'a list \<Rightarrow> bool" where
  "list_of_set s xs \<longleftrightarrow> distinct xs \<and> set xs = s"

definition json_get_categories :: "JsonTask list \<Rightarrow> int \<Rightarrow> string list \<Rightarrow> bool" where
  "json_get_categories file oid result =
     (let tasks' = (if oid \<noteq> 0 then filter (\<lambda>t. j_owner_id t = Some oid) file else file);
          categories' =
            set (map (\<lambda>t. case j_category t of None \<Rightarrow> ''General'' | Some c \<Rightarrow> c) tasks')
      in list_of_set categories' result)"

section \<open>Consistent databases\<close>

text \<open>
  What the schema's constraints and the sequences keep true of the tables: identities
  are unique and below their sequence, usernames are unique, every task's owner is a user.
\<close>

definition wf_db :: "db \<Rightarrow> bool" where
  "wf_db d \<longleftrightarrow>
     distinct (map user_id (users d)) \<and> distinct (map username (users d))
     \<and> (\<forall>u\<in>set (users d). user_id u < users_id_seq d)
     \<and> distinct (map task_id (tasks d))
     \<and> (\<forall>t\<in>set (tasks d). task_id t < tasks_id_seq d
            \<and> owner_id t \<in> set (map user_id (users d)))"

definition empty_db :: db where
  "empty_db = \<lparr>users = [], tasks = [], users_id_seq = 1, tasks_id_seq = 1, commits = 0\<rparr>"

section \<open>A sample database\<close>

definition alice :: User where
  "alice = \<lparr>user_id = 1, username = ''alice'', email = ''alice@example.com'',
            hashed_password = ''$argon2id$a'', full_name = ''Alice'', disabled = False,
            categories = Some [\<lparr>cat_name = ''General'', cat_color = ''#5dafb0''\<rparr>,
                               \<lparr>cat_name = ''Work'', cat_color = ''#FF0000''\<rparr>],
            tags = Some [\<lparr>tag_name = ''urgent'', tag_color = ''#FF0000''\<rparr>]\<rparr>"

definition bob :: User where
  "bob = \<lparr>user_id = 2, username = ''bob'', email = [],
          hashed_password = ''$argon2id$b'', full_name = [], disabled = False,
          categories = Some [\<lparr>cat_name = ''General'', cat_color = ''#5dafb0''\<rparr>],
          tags = Some []\<rparr>"

definition ship_it :: Task where
  "ship_it = \<lparr>task_id = 1, owner_id = 1, name = ''Ship it'', description = [],
              category = ''Work'', dueDate = None, parameters = [], completed = False,
              task_tags = Some [], priority = 2\<rparr>"

definition buy_milk :: Task where
  "buy_milk = \<lparr>task_id = 2, owner_id = 2, name = ''Buy milk'', description = ''2 litres'',
               category = ''General'', dueDate = Some 1767225600, parameters = [],
               completed = False, task_tags = Some [''shop''], priority = 0\<rparr>"

definition call_home :: Task where
  "call_home = \<lparr>task_id = 3, owner_id = 1, name = ''Call home'', description = [],
                category = ''Family'', dueDate = None, parameters = [], completed = True,
                task_tags = Some [], priority = 1\<rparr>"

definition sample_db :: db where
  "sample_db = \<lparr>users = [alice, bob], tasks = [ship_it, buy_milk, call_home],
                users_id_seq = 3, tasks_id_seq = 4, commits = 0\<rparr>"

definition json_row :: "int \<Rightarrow> int \<Rightarrow> string \<Rightarrow> JsonTask" where
  "json_row i ow c = \<lparr>j_id = Some i, j_task_id = None, j_owner_id = Some ow,
     j_name = Some ''task'', j_description = Some [], j_category = Some c, j_dueDate = None,
     j_parameters = Some [], j_completed = Some False, j_tags = None, j_priority = Some 0\<rparr>"

definition sample_file :: "JsonTask list" where
  "sample_file = [json_row 1 1 ''Work'', json_row 2 1 ''Errands'', json_row 3 2 ''Home'']"

section \<open>Reading a row back after a write\<close>

lemma find_write_user:
  assumes "find (\<lambda>r. user_id r = uid) rows = Some u" and "user_id u' = uid"
  shows "find (\<lambda>r. user_id r = uid) (write_user uid u' rows) = Some u'"
  using assms unfolding write_user_def
  by (induction rows) (auto split: if_splits)

lemma get_user_id: "get_user d uid = Some u \<Longrightarrow> user_id u = uid"
  unfolding get_user_def by (auto simp: find_Some_iff)

lemma get_user_written:
  assumes "get_user d uid = Some u" and "user_id u' = uid"
  shows "get_user (commit (d\<lparr>users := write_user uid u' (users d)\<rparr>)) uid = Some u'"
  using assms find_write_user [of uid "users d" u u']
  by (simp add: get_user_def commit_def)

lemma or_empty_Some: "or_empty (Some xs) = xs"
  by (simp add: or_empty_def)

section \<open>Upserting categories and tags by name\<close>

lemma replace_category_absent:
  "\<forall>e\<in>set cs. cat_name e \<noteq> cat_name c \<Longrightarrow> replace_category cs c = (cs, False)"
  by (induction cs) auto

lemma replace_category_present:
  "\<exists>e\<in>set cs. cat_name e = cat_name c \<Longrightarrow>
   \<exists>i<length cs. cat_name (cs ! i) = cat_name c \<and> (\<forall>j<i. cat_name (cs ! j) \<noteq> cat_name c)
      \<and> replace_category cs c = (cs[i := c], True)"
proof (induction cs)
  case Nil
  then show ?case by simp
next
  case (Cons e es)
  show ?case
  proof (cases "cat_name e = cat_name c")
    case True
    then have "0 < length (e # es) \<and> cat_name ((e # es) ! 0) = cat_name c
       \<and> (\<forall>j<0. cat_name ((e # es) ! j) \<noteq> cat_name c)
       \<and> replace_category (e # es) c = ((e # es)[0 := c], True)"
      by simp
    then show ?thesis by blast
  next
    case False
    with Cons.prems have "\<exists>x\<in>set es. cat_name x = cat_name c" by auto
    from Cons.IH [OF this] obtain i where i: "i < length es" "cat_name (es ! i) = cat_name c"
      "\<forall>j<i. cat_name (es ! j) \<noteq> cat_name c" "replace_category es c = (es[i := c], True)"
      by blast
    have "Suc i < length (e # es) \<and> cat_name ((e # es) ! Suc i) = cat_name c
       \<and> (\<forall>j<Suc i. cat_name ((e # es) ! j) \<noteq> cat_name c)
       \<and> replace_category (e # es) c = ((e # es)[Suc i := c], True)"
      using i False by (auto simp: less_Suc_eq_0_disj)
    then show ?thesis by blast
  qed
qed

lemma create_category_new:
  assumes "get_user d uid = Some u"
    and "\<forall>e\<in>set (user_get_categories d uid). cat_name e \<noteq> cat_name c"
  shows "fst (create_category d uid c) = Some c"
    and "user_get_categories (snd (create_category d uid c)) uid = user_get_categories d uid @ [c]"
proof -
  have r: "replace_category (or_empty (categories u)) c = (or_empty (categories u), False)"
    using assms by (intro replace_category_absent) (simp add: user_get_categories_def)
  show "fst (create_category d uid c) = Some c"
    using assms(1) r by (simp add: create_category_def)
  show "user_get_categories (snd (create_category d uid c)) uid = user_get_categories d uid @ [c]"
    using assms(1) r get_user_id [OF assms(1)]
    by (simp add: create_category_def user_get_categories_def get_user_written or_empty_Some)
qed

lemma create_category_existing:
  assumes "get_user d uid = Some u"
    and "\<exists>e\<in>set (user_get_categories d uid). cat_name e = cat_name c"
  shows "fst (create_category d uid c) = Some c"
    and "\<exists>i<length (user_get_categories d uid).
           cat_name (user_get_categories d uid ! i) = cat_name c
         \<and> (\<forall>j<i. cat_name (user_get_categories d uid ! j) \<noteq> cat_name c)
         \<and> user_get_categories (snd (create_category d uid c)) uid
             = (user_get_categories d uid)[i := c]"
proof -
  have cs: "user_get_categories d uid = or_empty (categories u)"
    using assms(1) by (simp add: user_get_categories_def)
  from assms(2) cs obtain i where i: "i < length (or_empty (categories u))"
     "cat_name (or_empty (categories u) ! i) = cat_name c"
     "\<forall>j<i. cat_name (or_empty (categories u) ! j) \<noteq> cat_name c"
     "replace_category (or_empty (categories u)) c = ((or_empty (categories u))[i := c], True)"
    using replace_category_present [of "or_empty (categories u)" c] by auto
  show "fst (create_category d uid c) = Some c"
    using assms(1) i(4) by (simp add: create_category_def)
  have "user_get_categories (snd (create_category d uid c)) uid = (or_empty (categories u))[i := c]"
    using assms(1) i(4) get_user_id [OF assms(1)]
    by (simp add: create_category_def user_get_categories_def get_user_written or_empty_Some)
  with i cs show "\<exists>i<length (user_get_categories d uid).
           cat_name (user_get_categories d uid ! i) = cat_name c
         \<and> (\<forall>j<i. cat_name (user_get_categories d uid ! j) \<noteq> cat_name c)
         \<and> user_get_categories (snd (create_category d uid c)) uid
             = (user_get_categories d uid)[i := c]"
    by auto
qed

lemma replace_tag_absent:
  "\<forall>e\<in>set cs. tag_name e \<noteq> tag_name c \<Longrightarrow> replace_tag cs c = (cs, False)"
  by (induction cs) auto

lemma replace_tag_present:
  "\<exists>e\<in>set cs. tag_name e = tag_name c \<Longrightarrow>
   \<exists>i<length cs. tag_name (cs ! i) = tag_name c \<and> (\<forall>j<i. tag_name (cs ! j) \<noteq> tag_name c)
      \<and> replace_tag cs c = (cs[i := c], True)"
proof (induction cs)
  case Nil
  then show ?case by simp
next
  case (Cons e es)
  show ?case
  proof (cases "tag_name e = tag_name c")
    case True
    then have "0 < length (e # es) \<and> tag_name ((e # es) ! 0) = tag_name c
       \<and> (\<forall>j<0. tag_name ((e # es) ! j) \<noteq> tag_name c)
       \<and> replace_tag (e # es) c = ((e # es)[0 := c], True)"
      by simp
    then show ?thesis by blast
  next
    case False
    with Cons.prems have "\<exists>x\<in>set es. tag_name x = tag_name c" by auto
    from Cons.IH [OF this] obtain i where i: "i < length es" "tag_name (es ! i) = tag_name c"
      "\<forall>j<i. tag_name (es ! j) \<noteq> tag_name c" "replace_tag es c = (es[i := c], True)"
      by blast
    have "Suc i < length (e # es) \<and> tag_name ((e # es) ! Suc i) = tag_name c
       \<and> (\<forall>j<Suc i. tag_name ((e # es) ! j) \<noteq> tag_name c)
       \<and> replace_tag (e # es) c = ((e # es)[Suc i := c], True)"
      using i False by (auto simp: less_Suc_eq_0_disj)
    then show ?thesis by blast
  qed
qed

lemma create_tag_new:
  assumes "get_user d uid = Some u"
    and "\<forall>e\<in>set (user_get_tags d uid). tag_name e \<noteq> tag_name c"
  shows "fst (create_tag d uid c) = Some c"
    and "user_get_tags (snd (create_tag d uid c)) uid = user_get_tags d uid @ [c]"
proof -
  have r: "replace_tag (or_empty (tags u)) c = (or_empty (tags u), False)"
    using assms by (intro replace_tag_absent) (simp add: user_get_tags_def)
  show "fst (create_tag d uid c) = Some c"
    using assms(1) r by (simp add: create_tag_def)
  show "user_get_tags (snd (create_tag d uid c)) uid = user_get_tags d uid @ [c]"
    using assms(1) r get_user_id [OF assms(1)]
    by (simp add: create_tag_def user_get_tags_def get_user_written or_empty_Some)
qed

lemma create_tag_existing:
  assumes "get_user d uid = Some u"
    and "\<exists>e\<in>set (user_get_tags d uid). tag_name e = tag_name c"
  shows "fst (create_tag d uid c) = Some c"
    and "\<exists>i<length (user_get_tags d uid).
           tag_name (user_get_tags d uid ! i) = tag_name c
         \<and> (\<forall>j<i. tag_name (user_get_tags d uid ! j) \<noteq> tag_name c)
         \<and> user_get_tags (snd (create_tag d uid c)) uid
             = (user_get_tags d uid)[i := c]"
proof -
  have cs: "user_get_tags d uid = or_empty (tags u)"
    using assms(1) by (simp add: user_get_tags_def)
  from assms(2) cs obtain i where i: "i < length (or_empty (tags u))"
     "tag_name (or_empty (tags u) ! i) = tag_name c"
     "\<forall>j<i. tag_name (or_empty (tags u) ! j) \<noteq> tag_name c"
     "replace_tag (or_empty (tags u)) c = ((or_empty (tags u))[i := c], True)"
    using replace_tag_present [of "or_empty (tags u)" c] by auto
  show "fst (create_tag d uid c) = Some c"
    using assms(1) i(4) by (simp add: create_tag_def)
  have "user_get_tags (snd (create_tag d uid c)) uid = (or_empty (tags u))[i := c]"
    using assms(1) i(4) get_user_id [OF assms(1)]
    by (simp add: create_tag_def user_get_tags_def get_user_written or_empty_Some)
  with i cs show "\<exists>i<length (user_get_tags d uid).
           tag_name (user_get_tags d uid ! i) = tag_name c
         \<and> (\<forall>j<i. tag_name (user_get_tags d uid ! j) \<noteq> tag_name c)
         \<and> user_get_tags (snd (create_tag d uid c)) uid
             = (user_get_tags d uid)[i := c]"
    by auto
qed


text \<open>
  C1. Upsert by name, for categories and for tags. For a user that exists, the call
  returns the entry it was given. If the user's list already holds an entry of that name,
  the list after the call is the list before with the first such entry (at its position
  \<open>i\<close>) replaced by the new entry: same length, same names in the same order, every other
  entry untouched. If no entry has that name, the list after the call is the list before
  with the new entry appended, one longer.
\<close>

theorem upsert_by_name:
  assumes "get_user d uid = Some u"
  shows "fst (create_category d uid c) = Some c
     \<and> ((\<exists>e\<in>set (user_get_categories d uid). cat_name e = cat_name c) \<longrightarrow>
          length (user_get_categories (snd (create_category d uid c)) uid)
            = length (user_get_categories d uid)
          \<and> map cat_name (user_get_categories (snd (create_category d uid c)) uid)
            = map cat_name (user_get_categories d uid)
          \<and> (\<exists>i<length (user_get_categories d uid).
                cat_name (user_get_categories d uid ! i) = cat_name c
              \<and> (\<forall>j<i. cat_name (user_get_categories d uid ! j) \<noteq> cat_name c)
              \<and> user_get_categories (snd (create_category d uid c)) uid
                  = (user_get_categories d uid)[i := c]))
     \<and> ((\<forall>e\<in>set (user_get_categories d uid). cat_name e \<noteq> cat_name c) \<longrightarrow>
          user_get_categories (snd (create_category d uid c)) uid
            = user_get_categories d uid @ [c]
          \<and> length (user_get_categories (snd (create_category d uid c)) uid)
            = length (user_get_categories d uid) + 1)
     \<and> fst (create_tag d uid t) = Some t
     \<and> ((\<exists>e\<in>set (user_get_tags d uid). tag_name e = tag_name t) \<longrightarrow>
          length (user_get_tags (snd (create_tag d uid t)) uid) = length (user_get_tags d uid)
          \<and> map tag_name (user_get_tags (snd (create_tag d uid t)) uid)
            = map tag_name (user_get_tags d uid)
          \<and> (\<exists>i<length (user_get_tags d uid).
                tag_name (user_get_tags d uid ! i) = tag_name t
              \<and> (\<forall>j<i. tag_name (user_get_tags d uid ! j) \<noteq> tag_name t)
              \<and> user_get_tags (snd (create_tag d uid t)) uid = (user_get_tags d uid)[i := t]))
     \<and> ((\<forall>e\<in>set (user_get_tags d uid). tag_name e \<noteq> tag_name t) \<longrightarrow>
          user_get_tags (snd (create_tag d uid t)) uid = user_get_tags d uid @ [t]
          \<and> length (user_get_tags (snd (create_tag d uid t)) uid)
            = length (user_get_tags d uid) + 1)"
proof -
  have ret_c: "fst (create_category d uid c) = Some c"
    using create_category_new(1) [OF assms] create_category_existing(1) [OF assms] by blast
  have ret_t: "fst (create_tag d uid t) = Some t"
    using create_tag_new(1) [OF assms] create_tag_existing(1) [OF assms] by blast
  have ex_c: "length (user_get_categories (snd (create_category d uid c)) uid)
            = length (user_get_categories d uid)
          \<and> map cat_name (user_get_categories (snd (create_category d uid c)) uid)
            = map cat_name (user_get_categories d uid)
          \<and> (\<exists>i<length (user_get_categories d uid).
                cat_name (user_get_categories d uid ! i) = cat_name c
              \<and> (\<forall>j<i. cat_name (user_get_categories d uid ! j) \<noteq> cat_name c)
              \<and> user_get_categories (snd (create_category d uid c)) uid
                  = (user_get_categories d uid)[i := c])"
    if "\<exists>e\<in>set (user_get_categories d uid). cat_name e = cat_name c"
  proof -
    from create_category_existing(2) [OF assms that] obtain i where
      i: "i < length (user_get_categories d uid)"
         "cat_name (user_get_categories d uid ! i) = cat_name c"
         "\<forall>j<i. cat_name (user_get_categories d uid ! j) \<noteq> cat_name c"
         "user_get_categories (snd (create_category d uid c)) uid
            = (user_get_categories d uid)[i := c]"
      by blast
    have "map cat_name ((user_get_categories d uid)[i := c]) = map cat_name (user_get_categories d uid)"
      using i(1,2) by (simp add: map_update list_update_same_conv)
    with i show ?thesis by auto
  qed
  have ex_t: "length (user_get_tags (snd (create_tag d uid t)) uid) = length (user_get_tags d uid)
          \<and> map tag_name (user_get_tags (snd (create_tag d uid t)) uid)
            = map tag_name (user_get_tags d uid)
          \<and> (\<exists>i<length (user_get_tags d uid).
                tag_name (user_get_tags d uid ! i) = tag_name t
              \<and> (\<forall>j<i. tag_name (user_get_tags d uid ! j) \<noteq> tag_name t)
              \<and> user_get_tags (snd (create_tag d uid t)) uid = (user_get_tags d uid)[i := t])"
    if "\<exists>e\<in>set (user_get_tags d uid). tag_name e = tag_name t"
  proof -
    from create_tag_existing(2) [OF assms that] obtain i where
      i: "i < length (user_get_tags d uid)"
         "tag_name (user_get_tags d uid ! i) = tag_name t"
         "\<forall>j<i. tag_name (user_get_tags d uid ! j) \<noteq> tag_name t"
         "user_get_tags (snd (create_tag d uid t)) uid = (user_get_tags d uid)[i := t]"
      by blast
    have "map tag_name ((user_get_tags d uid)[i := t]) = map tag_name (user_get_tags d uid)"
      using i(1,2) by (simp add: map_update list_update_same_conv)
    with i show ?thesis by auto
  qed
  have new_c: "user_get_categories (snd (create_category d uid c)) uid
            = user_get_categories d uid @ [c]
          \<and> length (user_get_categories (snd (create_category d uid c)) uid)
            = length (user_get_categories d uid) + 1"
    if "\<forall>e\<in>set (user_get_categories d uid). cat_name e \<noteq> cat_name c"
    using create_category_new(2) [OF assms that] by simp
  have new_t: "user_get_tags (snd (create_tag d uid t)) uid = user_get_tags d uid @ [t]
          \<and> length (user_get_tags (snd (create_tag d uid t)) uid)
            = length (user_get_tags d uid) + 1"
    if "\<forall>e\<in>set (user_get_tags d uid). tag_name e \<noteq> tag_name t"
    using create_tag_new(2) [OF assms that] by simp
  from ret_c ret_t ex_c ex_t new_c new_t show ?thesis by blast
qed

theorem upsert_by_name_witness:
  "get_user sample_db 1 = Some alice
   \<and> fst (create_category sample_db 1 \<lparr>cat_name = ''Work'', cat_color = ''#00FF00''\<rparr>)
       = Some \<lparr>cat_name = ''Work'', cat_color = ''#00FF00''\<rparr>
   \<and> length (user_get_categories
        (snd (create_category sample_db 1 \<lparr>cat_name = ''Work'', cat_color = ''#00FF00''\<rparr>)) 1)
       = length (user_get_categories sample_db 1)
   \<and> user_get_tags (snd (create_tag sample_db 1 \<lparr>tag_name = ''later'', tag_color = ''#0000FF''\<rparr>)) 1
       = user_get_tags sample_db 1 @ [\<lparr>tag_name = ''later'', tag_color = ''#0000FF''\<rparr>]"
proof -
  have u: "get_user sample_db 1 = Some alice"
    by (simp add: get_user_def sample_db_def alice_def)
  have cs: "user_get_categories sample_db 1 =
      [\<lparr>cat_name = ''General'', cat_color = ''#5dafb0''\<rparr>,
       \<lparr>cat_name = ''Work'', cat_color = ''#FF0000''\<rparr>]"
    by (simp add: user_get_categories_def u or_empty_def) (simp add: alice_def)
  have ts: "user_get_tags sample_db 1 = [\<lparr>tag_name = ''urgent'', tag_color = ''#FF0000''\<rparr>]"
    by (simp add: user_get_tags_def u or_empty_def) (simp add: alice_def)
  show ?thesis
    using upsert_by_name [OF u, of "\<lparr>cat_name = ''Work'', cat_color = ''#00FF00''\<rparr>"
        "\<lparr>tag_name = ''later'', tag_color = ''#0000FF''\<rparr>"] u
    by (simp add: cs ts)
qed

section \<open>Deleting categories and tags by name\<close>

lemma split_categories_filter:
  "split_categories cs n = (filter (\<lambda>c. cat_name c = n) cs, filter (\<lambda>c. cat_name c \<noteq> n) cs)"
  by (induction cs) auto

lemma split_tags_filter:
  "split_tags ts n = (filter (\<lambda>t. tag_name t = n) ts, filter (\<lambda>t. tag_name t \<noteq> n) ts)"
  by (induction ts) auto

lemma delete_category_result:
  assumes "get_user d uid = Some u"
  shows "fst (delete_category d uid n)
           = Some (filter (\<lambda>c. cat_name c = n) (user_get_categories d uid))"
    and "user_get_categories (snd (delete_category d uid n)) uid
           = filter (\<lambda>c. cat_name c \<noteq> n) (user_get_categories d uid)"
  using assms get_user_id [OF assms]
  by (simp_all add: delete_category_def user_get_categories_def split_categories_filter
      get_user_written or_empty_Some)

lemma delete_tag_result:
  assumes "get_user d uid = Some u"
  shows "fst (delete_tag d uid n) = Some (filter (\<lambda>t. tag_name t = n) (user_get_tags d uid))"
    and "user_get_tags (snd (delete_tag d uid n)) uid
           = filter (\<lambda>t. tag_name t \<noteq> n) (user_get_tags d uid)"
  using assms get_user_id [OF assms]
  by (simp_all add: delete_tag_def user_get_tags_def split_tags_filter
      get_user_written or_empty_Some)

text \<open>
  C7. For a user that exists, \<open>delete_category\<close> (and \<open>delete_tag\<close>) returns the entries
  of the user's list whose name equals the given name, in their order, and leaves in the
  list exactly the other entries, in their order. When no entry has the name, the result
  is the empty list (not the \<open>None\<close> of a missing user) and the list is what it was.
\<close>

theorem delete_by_name:
  assumes "get_user d uid = Some u"
  shows "fst (delete_category d uid n)
           = Some (filter (\<lambda>c. cat_name c = n) (user_get_categories d uid))
     \<and> user_get_categories (snd (delete_category d uid n)) uid
           = filter (\<lambda>c. cat_name c \<noteq> n) (user_get_categories d uid)
     \<and> ((\<forall>c\<in>set (user_get_categories d uid). cat_name c \<noteq> n) \<longrightarrow>
           fst (delete_category d uid n) = Some []
         \<and> user_get_categories (snd (delete_category d uid n)) uid = user_get_categories d uid)
     \<and> fst (delete_tag d uid n) = Some (filter (\<lambda>t. tag_name t = n) (user_get_tags d uid))
     \<and> user_get_tags (snd (delete_tag d uid n)) uid
           = filter (\<lambda>t. tag_name t \<noteq> n) (user_get_tags d uid)
     \<and> ((\<forall>t\<in>set (user_get_tags d uid). tag_name t \<noteq> n) \<longrightarrow>
           fst (delete_tag d uid n) = Some []
         \<and> user_get_tags (snd (delete_tag d uid n)) uid = user_get_tags d uid)"
proof -
  have "filter (\<lambda>c. cat_name c = n) (user_get_categories d uid) = []
      \<and> filter (\<lambda>c. cat_name c \<noteq> n) (user_get_categories d uid) = user_get_categories d uid"
    if "\<forall>c\<in>set (user_get_categories d uid). cat_name c \<noteq> n"
    using that by (simp add: filter_empty_conv)
  moreover have "filter (\<lambda>t. tag_name t = n) (user_get_tags d uid) = []
      \<and> filter (\<lambda>t. tag_name t \<noteq> n) (user_get_tags d uid) = user_get_tags d uid"
    if "\<forall>t\<in>set (user_get_tags d uid). tag_name t \<noteq> n"
    using that by (simp add: filter_empty_conv)
  ultimately show ?thesis
    using delete_category_result [OF assms, of n] delete_tag_result [OF assms, of n]
    by simp
qed

theorem delete_by_name_witness:
  "get_user sample_db 1 = Some alice
   \<and> fst (delete_category sample_db 1 ''Work'')
       = Some [\<lparr>cat_name = ''Work'', cat_color = ''#FF0000''\<rparr>]
   \<and> user_get_categories (snd (delete_category sample_db 1 ''Work'')) 1
       = [\<lparr>cat_name = ''General'', cat_color = ''#5dafb0''\<rparr>]
   \<and> fst (delete_tag sample_db 1 ''Work'') = Some []
   \<and> user_get_tags (snd (delete_tag sample_db 1 ''Work'')) 1 = user_get_tags sample_db 1"
proof -
  have u: "get_user sample_db 1 = Some alice"
    by (simp add: get_user_def sample_db_def alice_def)
  have cs: "user_get_categories sample_db 1 =
      [\<lparr>cat_name = ''General'', cat_color = ''#5dafb0''\<rparr>,
       \<lparr>cat_name = ''Work'', cat_color = ''#FF0000''\<rparr>]"
    by (simp add: user_get_categories_def u or_empty_def) (simp add: alice_def)
  have ts: "user_get_tags sample_db 1 = [\<lparr>tag_name = ''urgent'', tag_color = ''#FF0000''\<rparr>]"
    by (simp add: user_get_tags_def u or_empty_def) (simp add: alice_def)
  show ?thesis
    using delete_by_name [OF u, of "''Work''"] u
    by (simp add: cs ts)
qed

section \<open>Scoped access to tasks\<close>

lemma get_task_None_iff:
  "get_task d oid tid = None \<longleftrightarrow> (\<forall>t\<in>set (tasks d). task_id t = tid \<longrightarrow> owner_id t \<noteq> oid)"
  by (auto simp: get_task_def find_None_iff)

lemma get_task_SomeD:
  "get_task d oid tid = Some t \<Longrightarrow> t \<in> set (tasks d) \<and> task_id t = tid \<and> owner_id t = oid"
  unfolding get_task_def by (auto simp: find_Some_iff)

text \<open>
  C2. Scoped access. When no row carries both the task id and the owner id (the id is
  unknown, or every row of that id belongs to another owner), \<open>get_task\<close> gives \<open>None\<close>,
  \<open>update_task\<close> gives \<open>None\<close> and \<open>remove_task\<close> gives \<open>False\<close>, whatever the dict, and
  the database (tables, sequences, commit count) is what it was. The two cases are not
  told apart: the result does not depend on which one holds.
\<close>

theorem scoped_access_not_found:
  assumes "(\<forall>t\<in>set (tasks d). task_id t \<noteq> tid)
           \<or> (\<forall>t\<in>set (tasks d). task_id t = tid \<longrightarrow> owner_id t \<noteq> oid)"
  shows "get_task d oid tid = None
     \<and> update_task d oid tid task_data = Inr (None, d)
     \<and> remove_task d oid tid = (False, d)"
proof -
  from assms have "\<forall>t\<in>set (tasks d). task_id t = tid \<longrightarrow> owner_id t \<noteq> oid"
    by blast
  then have "get_task d oid tid = None"
    by (simp add: get_task_None_iff)
  then show ?thesis
    by (simp add: update_task_def remove_task_def)
qed

theorem scoped_access_not_found_witness:
  "filter (\<lambda>t. task_id t = 1 \<and> owner_id t = 2) (tasks sample_db) = []
   \<and> filter (\<lambda>t. task_id t = 99) (tasks sample_db) = []
   \<and> get_task sample_db 1 1 = Some ship_it
   \<and> get_task sample_db 2 1 = None \<and> get_task sample_db 2 99 = None
   \<and> update_task sample_db 2 1 [Item_name ''mine''] = Inr (None, sample_db)
   \<and> update_task sample_db 2 99 [Item_name ''mine''] = Inr (None, sample_db)
   \<and> remove_task sample_db 2 1 = (False, sample_db)
   \<and> remove_task sample_db 2 99 = (False, sample_db)"
proof -
  have a: "\<forall>t\<in>set (tasks sample_db). task_id t = 1 \<longrightarrow> owner_id t \<noteq> 2"
    by (simp add: sample_db_def ship_it_def buy_milk_def call_home_def)
  have b: "\<forall>t\<in>set (tasks sample_db). task_id t \<noteq> 99"
    by (simp add: sample_db_def ship_it_def buy_milk_def call_home_def)
  have c: "get_task sample_db 1 1 = Some ship_it"
    by (simp add: get_task_def sample_db_def ship_it_def)
  have f: "filter (\<lambda>t. task_id t = 1 \<and> owner_id t = 2) (tasks sample_db) = []"
    "filter (\<lambda>t. task_id t = 99) (tasks sample_db) = []"
    by (simp_all add: sample_db_def ship_it_def buy_milk_def call_home_def)
  show ?thesis
    using scoped_access_not_found [of sample_db 1 2 "[Item_name ''mine'']", OF disjI2, OF a]
      scoped_access_not_found [of sample_db 99 2 "[Item_name ''mine'']", OF disjI1, OF b] c f
    by simp
qed

section \<open>Completing a task\<close>

lemma find_write_task:
  assumes "find (\<lambda>r. task_id r = tid \<and> owner_id r = oid) rows = Some t"
    and "task_id t' = tid" and "owner_id t' = oid"
  shows "find (\<lambda>r. task_id r = tid \<and> owner_id r = oid) (write_task tid t' rows) = Some t'"
  using assms unfolding write_task_def
  by (induction rows) (auto split: if_splits)

lemma get_task_written:
  assumes "get_task d oid tid = Some t" and "task_id t' = tid" and "owner_id t' = oid"
  shows "get_task (commit (d\<lparr>tasks := write_task tid t' (tasks d)\<rparr>)) oid tid = Some t'"
  using find_write_task [of tid oid "tasks d" t t'] assms
  by (simp add: get_task_def commit_def)

lemma mark_task_complete_open:
  assumes "get_task d oid tid = Some t" and "\<not> completed t"
  shows "mark_task_complete d oid tid
           = (True, commit (d\<lparr>tasks := write_task tid (t\<lparr>completed := True\<rparr>) (tasks d)\<rparr>))"
    and "get_task (snd (mark_task_complete d oid tid)) oid tid = Some (t\<lparr>completed := True\<rparr>)"
    and "commits (snd (mark_task_complete d oid tid)) = commits d + 1"
proof -
  from get_task_SomeD [OF assms(1)] have ids: "task_id t = tid" "owner_id t = oid"
    by simp_all
  show m: "mark_task_complete d oid tid
           = (True, commit (d\<lparr>tasks := write_task tid (t\<lparr>completed := True\<rparr>) (tasks d)\<rparr>))"
    using assms ids by (simp add: mark_task_complete_def)
  show "get_task (snd (mark_task_complete d oid tid)) oid tid = Some (t\<lparr>completed := True\<rparr>)"
    using get_task_written [OF assms(1), of "t\<lparr>completed := True\<rparr>"] ids by (simp add: m)
  show "commits (snd (mark_task_complete d oid tid)) = commits d + 1"
    by (simp add: m commit_def)
qed

lemma mark_task_complete_done:
  assumes "get_task d oid tid = Some t" and "completed t"
  shows "mark_task_complete d oid tid = (True, d)"
  using assms by (simp add: mark_task_complete_def)

text \<open>
  C4. \<open>mark_task_complete\<close> is idempotent. On a task the owner has, the call returns
  \<open>True\<close> and afterwards the task reads as completed; if it was not completed before,
  the stored row is the old row with the flag set and exactly one commit was made; if it
  was, nothing is written. A second call returns \<open>True\<close> again and leaves the database,
  commit count included, exactly as the first call left it. Without such a task the call
  returns \<open>False\<close> and changes nothing.
\<close>

theorem mark_task_complete_idempotent:
  "(get_task d oid tid = Some t \<longrightarrow>
      fst (mark_task_complete d oid tid) = True
    \<and> (\<exists>t'. get_task (snd (mark_task_complete d oid tid)) oid tid = Some t' \<and> completed t')
    \<and> (\<not> completed t \<longrightarrow>
          get_task (snd (mark_task_complete d oid tid)) oid tid = Some (t\<lparr>completed := True\<rparr>)
        \<and> commits (snd (mark_task_complete d oid tid)) = commits d + 1)
    \<and> (completed t \<longrightarrow> snd (mark_task_complete d oid tid) = d)
    \<and> mark_task_complete (snd (mark_task_complete d oid tid)) oid tid
        = (True, snd (mark_task_complete d oid tid)))
   \<and> (get_task d oid tid = None \<longrightarrow> mark_task_complete d oid tid = (False, d))"
proof -
  have found: "fst (mark_task_complete d oid tid) = True
    \<and> (\<exists>t'. get_task (snd (mark_task_complete d oid tid)) oid tid = Some t' \<and> completed t')
    \<and> (\<not> completed t \<longrightarrow>
          get_task (snd (mark_task_complete d oid tid)) oid tid = Some (t\<lparr>completed := True\<rparr>)
        \<and> commits (snd (mark_task_complete d oid tid)) = commits d + 1)
    \<and> (completed t \<longrightarrow> snd (mark_task_complete d oid tid) = d)
    \<and> mark_task_complete (snd (mark_task_complete d oid tid)) oid tid
        = (True, snd (mark_task_complete d oid tid))"
    if g: "get_task d oid tid = Some t"
  proof (cases "completed t")
    case True
    from mark_task_complete_done [OF g True] g True show ?thesis by simp
  next
    case False
    note o = mark_task_complete_open [OF g False]
    have "completed (t\<lparr>completed := True\<rparr>)" by simp
    from mark_task_complete_done [OF o(2) this] o False show ?thesis by simp
  qed
  have "mark_task_complete d oid tid = (False, d)" if "get_task d oid tid = None"
    using that by (simp add: mark_task_complete_def)
  with found show ?thesis by blast
qed

theorem mark_task_complete_idempotent_witness:
  "get_task sample_db 1 1 = Some ship_it \<and> \<not> completed ship_it \<and> priority ship_it = 2
   \<and> fst (mark_task_complete sample_db 1 1) = True
   \<and> get_task (snd (mark_task_complete sample_db 1 1)) 1 1 = Some (ship_it\<lparr>completed := True\<rparr>)
   \<and> commits (snd (mark_task_complete sample_db 1 1)) = 1
   \<and> mark_task_complete (snd (mark_task_complete sample_db 1 1)) 1 1
       = (True, snd (mark_task_complete sample_db 1 1))
   \<and> get_task sample_db 2 1 = None \<and> mark_task_complete sample_db 2 1 = (False, sample_db)"
proof -
  have g: "get_task sample_db 1 1 = Some ship_it"
    by (simp add: get_task_def sample_db_def ship_it_def)
  have n: "get_task sample_db 2 1 = None"
    by (simp add: get_task_def sample_db_def ship_it_def buy_milk_def call_home_def)
  have c: "\<not> completed ship_it" "priority ship_it = 2" "commits sample_db = 0"
    by (simp_all add: ship_it_def sample_db_def)
  show ?thesis
    using mark_task_complete_idempotent [of sample_db 1 1 ship_it]
      mark_task_complete_idempotent [of sample_db 2 1 ship_it] g n c
    by simp
qed

section \<open>Deleting a task\<close>

lemma remove_task_found:
  assumes "get_task d oid tid = Some t"
  shows "remove_task d oid tid
           = (True, commit (d\<lparr>tasks := filter (\<lambda>r. task_id r \<noteq> tid) (tasks d)\<rparr>))"
  using assms get_task_SomeD [OF assms] by (simp add: remove_task_def)

lemma get_task_removed:
  "get_task (commit (d\<lparr>tasks := filter (\<lambda>r. task_id r \<noteq> tid) (tasks d)\<rparr>)) oid tid = None"
  by (simp add: get_task_None_iff commit_def)

lemma json_find_matches:
  assumes "find (\<lambda>task. j_id task = Some tid \<and> j_owner_id task = Some oid) file = Some r"
  shows "r \<in> set file \<and> matches oid tid r"
  using assms by (auto simp: find_Some_iff matches_def)

lemma json_get_task_SomeD:
  assumes "json_get_task file oid tid = Inr (Some t)"
  shows "\<exists>r\<in>set file. matches oid tid r"
proof (cases "find (\<lambda>task. j_id task = Some tid \<and> j_owner_id task = Some oid) file")
  case None
  with assms show ?thesis by (simp add: json_get_task_def)
next
  case (Some r)
  from json_find_matches [OF this] show ?thesis by blast
qed

lemma json_get_task_unmatched:
  assumes "\<forall>r\<in>set file. \<not> matches oid tid r"
  shows "json_get_task file oid tid = Inr None"
proof -
  have "find (\<lambda>task. j_id task = Some tid \<and> j_owner_id task = Some oid) file = None"
    using assms by (auto simp: find_None_iff matches_def)
  then show ?thesis by (simp add: json_get_task_def)
qed

lemma json_remove_task_found:
  assumes "r \<in> set file" and "matches oid tid r"
  shows "json_remove_task file oid tid = (True, filter (\<lambda>t. \<not> matches oid tid t) file)"
proof -
  have "length (filter (\<lambda>t. \<not> matches oid tid t) file) < length file"
    using assms by (intro length_filter_less) simp_all
  then show ?thesis by (simp add: json_remove_task_def)
qed

lemma json_remove_task_unmatched:
  assumes "\<forall>r\<in>set file. \<not> matches oid tid r"
  shows "json_remove_task file oid tid = (False, file)"
proof -
  have "filter (\<lambda>t. \<not> matches oid tid t) file = file"
    using assms by (simp add: filter_id_conv)
  then show ?thesis by (simp add: json_remove_task_def)
qed

text \<open>
  C5. Deleting twice. On a task the owner has, \<open>remove_task\<close> returns \<open>True\<close> and leaves
  the table without any row of that id; \<open>get_task\<close> on the pair then gives \<open>None\<close> and a
  second \<open>remove_task\<close> returns \<open>False\<close> and changes nothing. The JSON-file service does
  the same on its file: first \<open>True\<close>, then no task to get, then \<open>False\<close>.
\<close>

theorem remove_task_twice:
  "(get_task d oid tid = Some t \<longrightarrow>
      fst (remove_task d oid tid) = True
    \<and> tasks (snd (remove_task d oid tid)) = filter (\<lambda>r. task_id r \<noteq> tid) (tasks d)
    \<and> get_task (snd (remove_task d oid tid)) oid tid = None
    \<and> remove_task (snd (remove_task d oid tid)) oid tid = (False, snd (remove_task d oid tid)))
   \<and> (json_get_task file oid tid = Inr (Some t) \<longrightarrow>
      fst (json_remove_task file oid tid) = True
    \<and> json_get_task (snd (json_remove_task file oid tid)) oid tid = Inr None
    \<and> json_remove_task (snd (json_remove_task file oid tid)) oid tid
        = (False, snd (json_remove_task file oid tid)))"
proof -
  have sql: "fst (remove_task d oid tid) = True
    \<and> tasks (snd (remove_task d oid tid)) = filter (\<lambda>r. task_id r \<noteq> tid) (tasks d)
    \<and> get_task (snd (remove_task d oid tid)) oid tid = None
    \<and> remove_task (snd (remove_task d oid tid)) oid tid = (False, snd (remove_task d oid tid))"
    if g: "get_task d oid tid = Some t"
  proof -
    note r = remove_task_found [OF g]
    have n: "get_task (snd (remove_task d oid tid)) oid tid = None"
      by (simp add: r get_task_removed)
    then have "remove_task (snd (remove_task d oid tid)) oid tid
        = (False, snd (remove_task d oid tid))"
      by (simp add: remove_task_def)
    with n show ?thesis by (simp add: r commit_def)
  qed
  have js: "fst (json_remove_task file oid tid) = True
    \<and> json_get_task (snd (json_remove_task file oid tid)) oid tid = Inr None
    \<and> json_remove_task (snd (json_remove_task file oid tid)) oid tid
        = (False, snd (json_remove_task file oid tid))"
    if g: "json_get_task file oid tid = Inr (Some t)"
  proof -
    from json_get_task_SomeD [OF g] obtain r where r: "r \<in> set file" "matches oid tid r"
      by blast
    note rm = json_remove_task_found [OF r]
    have un: "\<forall>x\<in>set (filter (\<lambda>t. \<not> matches oid tid t) file). \<not> matches oid tid x"
      by simp
    from json_get_task_unmatched [OF un] json_remove_task_unmatched [OF un] show ?thesis
      by (simp add: rm)
  qed
  from sql js show ?thesis by blast
qed

theorem remove_task_twice_witness:
  "get_task sample_db 1 1 = Some ship_it
   \<and> fst (remove_task sample_db 1 1) = True
   \<and> tasks (snd (remove_task sample_db 1 1)) = [buy_milk, call_home]
   \<and> get_task (snd (remove_task sample_db 1 1)) 1 1 = None
   \<and> remove_task (snd (remove_task sample_db 1 1)) 1 1 = (False, snd (remove_task sample_db 1 1))
   \<and> (\<exists>t. json_get_task sample_file 1 2 = Inr (Some t))
   \<and> json_remove_task sample_file 1 2 = (True, [json_row 1 1 ''Work'', json_row 3 2 ''Home''])
   \<and> json_get_task (snd (json_remove_task sample_file 1 2)) 1 2 = Inr None
   \<and> json_remove_task (snd (json_remove_task sample_file 1 2)) 1 2
       = (False, snd (json_remove_task sample_file 1 2))"
proof -
  have g: "get_task sample_db 1 1 = Some ship_it"
    by (simp add: get_task_def sample_db_def ship_it_def)
  have ts: "filter (\<lambda>r. task_id r \<noteq> 1) (tasks sample_db) = [buy_milk, call_home]"
    by (simp add: sample_db_def ship_it_def buy_milk_def call_home_def)
  have j: "json_get_task sample_file 1 2 = Inr (Some \<lparr>task_id = 2, owner_id = 1,
      name = ''task'', description = [], category = ''Errands'', dueDate = None,
      parameters = [], completed = False, task_tags = None, priority = 0\<rparr>)"
    by (simp add: json_get_task_def sample_file_def json_row_def TaskRead_def)
  have jr: "json_remove_task sample_file 1 2 = (True, [json_row 1 1 ''Work'', json_row 3 2 ''Home''])"
    by (simp add: json_remove_task_def sample_file_def json_row_def matches_def)
  show ?thesis
    using remove_task_twice [of sample_db 1 1 ship_it sample_file] g ts
      remove_task_twice [of sample_db 1 2 "\<lparr>task_id = 2, owner_id = 1,
      name = ''task'', description = [], category = ''Errands'', dueDate = None,
      parameters = [], completed = False, task_tags = None, priority = 0\<rparr>" sample_file] j jr
    by simp
qed

section \<open>Updating a task\<close>

lemma update_task_fields_absent:
  "''id'' \<notin> set (map item_key items) \<Longrightarrow> task_id (update_task_fields t items) = task_id t"
  "''owner_id'' \<notin> set (map item_key items) \<Longrightarrow> owner_id (update_task_fields t items) = owner_id t"
  "''name'' \<notin> set (map item_key items) \<Longrightarrow> name (update_task_fields t items) = name t"
  "''description'' \<notin> set (map item_key items)
     \<Longrightarrow> description (update_task_fields t items) = description t"
  "''category'' \<notin> set (map item_key items) \<Longrightarrow> category (update_task_fields t items) = category t"
  "''dueDate'' \<notin> set (map item_key items) \<Longrightarrow> dueDate (update_task_fields t items) = dueDate t"
  "''parameters'' \<notin> set (map item_key items)
     \<Longrightarrow> parameters (update_task_fields t items) = parameters t"
  "''completed'' \<notin> set (map item_key items)
     \<Longrightarrow> completed (update_task_fields t items) = completed t"
  "''tags'' \<notin> set (map item_key items) \<Longrightarrow> task_tags (update_task_fields t items) = task_tags t"
  "''priority'' \<notin> set (map item_key items) \<Longrightarrow> priority (update_task_fields t items) = priority t"
proof (induction items arbitrary: t)
  case Nil
  {
    case 1 show ?case by simp
  next
    case 2 show ?case by simp
  next
    case 3 show ?case by simp
  next
    case 4 show ?case by simp
  next
    case 5 show ?case by simp
  next
    case 6 show ?case by simp
  next
    case 7 show ?case by simp
  next
    case 8 show ?case by simp
  next
    case 9 show ?case by simp
  next
    case 10 show ?case by simp
  }
next
  case (Cons item items)
  {
    case 1 with Cons.IH(1) show ?case by (cases item) simp_all
  next
    case 2 with Cons.IH(2) show ?case by (cases item) simp_all
  next
    case 3 with Cons.IH(3) show ?case by (cases item) simp_all
  next
    case 4 with Cons.IH(4) show ?case by (cases item) simp_all
  next
    case 5 with Cons.IH(5) show ?case by (cases item) simp_all
  next
    case 6 with Cons.IH(6) show ?case by (cases item) simp_all
  next
    case 7 with Cons.IH(7) show ?case by (cases item) simp_all
  next
    case 8 with Cons.IH(8) show ?case by (cases item) simp_all
  next
    case 9 with Cons.IH(9) show ?case by (cases item) simp_all
  next
    case 10 with Cons.IH(10) show ?case by (cases item) simp_all
  }
qed

lemma update_task_fields_Item_id:
  "distinct (map item_key items) \<Longrightarrow> Item_id v \<in> set items
     \<Longrightarrow> task_id (update_task_fields t items) = v"
proof (induction items arbitrary: t)
  case Nil
  then show ?case by simp
next
  case (Cons item items)
  show ?case
  proof (cases "item = Item_id v")
    case True
    with Cons.prems(1) have "''id'' \<notin> set (map item_key items)" by simp
    from update_task_fields_absent(1) [OF this] True show ?thesis by simp
  next
    case False
    with Cons.prems have "distinct (map item_key items)" "Item_id v \<in> set items" by simp_all
    from Cons.IH [OF this] show ?thesis by simp
  qed
qed

lemma update_task_fields_Item_owner_id:
  "distinct (map item_key items) \<Longrightarrow> Item_owner_id v \<in> set items
     \<Longrightarrow> owner_id (update_task_fields t items) = v"
proof (induction items arbitrary: t)
  case Nil
  then show ?case by simp
next
  case (Cons item items)
  show ?case
  proof (cases "item = Item_owner_id v")
    case True
    with Cons.prems(1) have "''owner_id'' \<notin> set (map item_key items)" by simp
    from update_task_fields_absent(2) [OF this] True show ?thesis by simp
  next
    case False
    with Cons.prems have "distinct (map item_key items)" "Item_owner_id v \<in> set items" by simp_all
    from Cons.IH [OF this] show ?thesis by simp
  qed
qed

lemma update_task_fields_Item_name:
  "distinct (map item_key items) \<Longrightarrow> Item_name v \<in> set items
     \<Longrightarrow> name (update_task_fields t items) = v"
proof (induction items arbitrary: t)
  case Nil
  then show ?case by simp
next
  case (Cons item items)
  show ?case
  proof (cases "item = Item_name v")
    case True
    with Cons.prems(1) have "''name'' \<notin> set (map item_key items)" by simp
    from update_task_fields_absent(3) [OF this] True show ?thesis by simp
  next
    case False
    with Cons.prems have "distinct (map item_key items)" "Item_name v \<in> set items" by simp_all
    from Cons.IH [OF this] show ?thesis by simp
  qed
qed

lemma update_task_fields_Item_description:
  "distinct (map item_key items) \<Longrightarrow> Item_description v \<in> set items
     \<Longrightarrow> description (update_task_fields t items) = v"
proof (induction items arbitrary: t)
  case Nil
  then show ?case by simp
next
  case (Cons item items)
  show ?case
  proof (cases "item = Item_description v")
    case True
    with Cons.prems(1) have "''description'' \<notin> set (map item_key items)" by simp
    from update_task_fields_absent(4) [OF this] True show ?thesis by simp
  next
    case False
    with Cons.prems have "distinct (map item_key items)" "Item_description v \<in> set items" by simp_all
    from Cons.IH [OF this] show ?thesis by simp
  qed
qed

lemma update_task_fields_Item_category:
  "distinct (map item_key items) \<Longrightarrow> Item_category v \<in> set items
     \<Longrightarrow> category (update_task_fields t items) = v"
proof (induction items arbitrary: t)
  case Nil
  then show ?case by simp
next
  case (Cons item items)
  show ?case
  proof (cases "item = Item_category v")
    case True
    with Cons.prems(1) have "''category'' \<notin> set (map item_key items)" by simp
    from update_task_fields_absent(5) [OF this] True show ?thesis by simp
  next
    case False
    with Cons.prems have "distinct (map item_key items)" "Item_category v \<in> set items" by simp_all
    from Cons.IH [OF this] show ?thesis by simp
  qed
qed

lemma update_task_fields_Item_dueDate:
  "distinct (map item_key items) \<Longrightarrow> Item_dueDate v \<in> set items
     \<Longrightarrow> dueDate (update_task_fields t items) = v"
proof (induction items arbitrary: t)
  case Nil
  then show ?case by simp
next
  case (Cons item items)
  show ?case
  proof (cases "item = Item_dueDate v")
    case True
    with Cons.prems(1) have "''dueDate'' \<notin> set (map item_key items)" by simp
    from update_task_fields_absent(6) [OF this] True show ?thesis by simp
  next
    case False
    with Cons.prems have "distinct (map item_key items)" "Item_dueDate v \<in> set items" by simp_all
    from Cons.IH [OF this] show ?thesis by simp
  qed
qed

lemma update_task_fields_Item_parameters:
  "distinct (map item_key items) \<Longrightarrow> Item_parameters v \<in> set items
     \<Longrightarrow> parameters (update_task_fields t items) = v"
proof (induction items arbitrary: t)
  case Nil
  then show ?case by simp
next
  case (Cons item items)
  show ?case
  proof (cases "item = Item_parameters v")
    case True
    with Cons.prems(1) have "''parameters'' \<notin> set (map item_key items)" by simp
    from update_task_fields_absent(7) [OF this] True show ?thesis by simp
  next
    case False
    with Cons.prems have "distinct (map item_key items)" "Item_parameters v \<in> set items" by simp_all
    from Cons.IH [OF this] show ?thesis by simp
  qed
qed

lemma update_task_fields_Item_completed:
  "distinct (map item_key items) \<Longrightarrow> Item_completed v \<in> set items
     \<Longrightarrow> completed (update_task_fields t items) = v"
proof (induction items arbitrary: t)
  case Nil
  then show ?case by simp
next
  case (Cons item items)
  show ?case
  proof (cases "item = Item_completed v")
    case True
    with Cons.prems(1) have "''completed'' \<notin> set (map item_key items)" by simp
    from update_task_fields_absent(8) [OF this] True show ?thesis by simp
  next
    case False
    with Cons.prems have "distinct (map item_key items)" "Item_completed v \<in> set items" by simp_all
    from Cons.IH [OF this] show ?thesis by simp
  qed
qed

lemma update_task_fields_Item_tags:
  "distinct (map item_key items) \<Longrightarrow> Item_tags v \<in> set items
     \<Longrightarrow> task_tags (update_task_fields t items) = v"
proof (induction items arbitrary: t)
  case Nil
  then show ?case by simp
next
  case (Cons item items)
  show ?case
  proof (cases "item = Item_tags v")
    case True
    with Cons.prems(1) have "''tags'' \<notin> set (map item_key items)" by simp
    from update_task_fields_absent(9) [OF this] True show ?thesis by simp
  next
    case False
    with Cons.prems have "distinct (map item_key items)" "Item_tags v \<in> set items" by simp_all
    from Cons.IH [OF this] show ?thesis by simp
  qed
qed

lemma update_task_fields_Item_priority:
  "distinct (map item_key items) \<Longrightarrow> Item_priority v \<in> set items
     \<Longrightarrow> priority (update_task_fields t items) = v"
proof (induction items arbitrary: t)
  case Nil
  then show ?case by simp
next
  case (Cons item items)
  show ?case
  proof (cases "item = Item_priority v")
    case True
    with Cons.prems(1) have "''priority'' \<notin> set (map item_key items)" by simp
    from update_task_fields_absent(10) [OF this] True show ?thesis by simp
  next
    case False
    with Cons.prems have "distinct (map item_key items)" "Item_priority v \<in> set items" by simp_all
    from Cons.IH [OF this] show ?thesis by simp
  qed
qed

lemma update_task_found:
  assumes "get_task d oid tid = Some t"
  shows "update_task d oid tid task_data = Inr (r, d')
     \<Longrightarrow> r = Some (update_task_fields t task_data)
       \<and> d' = commit (d\<lparr>tasks := write_task tid (update_task_fields t task_data) (tasks d)\<rparr>)"
    and "''id'' \<notin> set (map item_key task_data) \<Longrightarrow> ''owner_id'' \<notin> set (map item_key task_data)
     \<Longrightarrow> update_task d oid tid task_data
         = Inr (Some (update_task_fields t task_data),
                commit (d\<lparr>tasks := write_task tid (update_task_fields t task_data) (tasks d)\<rparr>))"
  using assms get_task_SomeD [OF assms]
  by (auto simp: update_task_def Let_def update_task_fields_absent(1,2) split: if_splits)

text \<open>
  The store function on its own, given a dict. Take a task the owner has and a dict (its
  keys distinct, as a dict's are), and let \<open>t'\<close> be the row the loop of \<open>update_task\<close>
  builds. Whenever the call returns, it returns \<open>t'\<close>; with the commit refusing nothing
  but a moved key, it does return, and the scoped \<open>get_task\<close> then reads \<open>t'\<close>, when the
  dict names neither \<open>id\<close> nor \<open>owner_id\<close>. In \<open>t'\<close> every field the dict names holds
  the dict's value and every field it does not name holds the value it had before.
\<close>

lemma update_task_partial:
  assumes "get_task d oid tid = Some t" and "distinct (map item_key task_data)"
  shows "let t' = update_task_fields t task_data in
     (\<forall>r d'. update_task d oid tid task_data = Inr (r, d') \<longrightarrow> r = Some t')
     \<and> (''id'' \<notin> set (map item_key task_data) \<and> ''owner_id'' \<notin> set (map item_key task_data) \<longrightarrow>
          (\<exists>d'. update_task d oid tid task_data = Inr (Some t', d')
                \<and> get_task d' oid tid = Some t'))
     \<and> (\<forall>v. Item_id v \<in> set task_data \<longrightarrow> task_id t' = v)
     \<and> (\<forall>v. Item_owner_id v \<in> set task_data \<longrightarrow> owner_id t' = v)
     \<and> (\<forall>v. Item_name v \<in> set task_data \<longrightarrow> name t' = v)
     \<and> (\<forall>v. Item_description v \<in> set task_data \<longrightarrow> description t' = v)
     \<and> (\<forall>v. Item_category v \<in> set task_data \<longrightarrow> category t' = v)
     \<and> (\<forall>v. Item_dueDate v \<in> set task_data \<longrightarrow> dueDate t' = v)
     \<and> (\<forall>v. Item_parameters v \<in> set task_data \<longrightarrow> parameters t' = v)
     \<and> (\<forall>v. Item_completed v \<in> set task_data \<longrightarrow> completed t' = v)
     \<and> (\<forall>v. Item_tags v \<in> set task_data \<longrightarrow> task_tags t' = v)
     \<and> (\<forall>v. Item_priority v \<in> set task_data \<longrightarrow> priority t' = v)
     \<and> (''id'' \<notin> set (map item_key task_data) \<longrightarrow> task_id t' = task_id t)
     \<and> (''owner_id'' \<notin> set (map item_key task_data) \<longrightarrow> owner_id t' = owner_id t)
     \<and> (''name'' \<notin> set (map item_key task_data) \<longrightarrow> name t' = name t)
     \<and> (''description'' \<notin> set (map item_key task_data) \<longrightarrow> description t' = description t)
     \<and> (''category'' \<notin> set (map item_key task_data) \<longrightarrow> category t' = category t)
     \<and> (''dueDate'' \<notin> set (map item_key task_data) \<longrightarrow> dueDate t' = dueDate t)
     \<and> (''parameters'' \<notin> set (map item_key task_data) \<longrightarrow> parameters t' = parameters t)
     \<and> (''completed'' \<notin> set (map item_key task_data) \<longrightarrow> completed t' = completed t)
     \<and> (''tags'' \<notin> set (map item_key task_data) \<longrightarrow> task_tags t' = task_tags t)
     \<and> (''priority'' \<notin> set (map item_key task_data) \<longrightarrow> priority t' = priority t)"
proof -
  have ret: "\<forall>r d'. update_task d oid tid task_data = Inr (r, d')
      \<longrightarrow> r = Some (update_task_fields t task_data)"
    using update_task_found(1) [OF assms(1)] by simp
  have ok: "''id'' \<notin> set (map item_key task_data) \<and> ''owner_id'' \<notin> set (map item_key task_data) \<longrightarrow>
          (\<exists>d'. update_task d oid tid task_data = Inr (Some (update_task_fields t task_data), d')
                \<and> get_task d' oid tid = Some (update_task_fields t task_data))"
  proof
    assume "''id'' \<notin> set (map item_key task_data) \<and> ''owner_id'' \<notin> set (map item_key task_data)"
    then have k: "''id'' \<notin> set (map item_key task_data)"
      "''owner_id'' \<notin> set (map item_key task_data)"
      by simp_all
    from get_task_SomeD [OF assms(1)] update_task_fields_absent(1,2) [of task_data t] k
    have ids: "task_id (update_task_fields t task_data) = tid"
      "owner_id (update_task_fields t task_data) = oid"
      by simp_all
    from get_task_written [OF assms(1) ids] update_task_found(2) [OF assms(1) k]
    show "\<exists>d'. update_task d oid tid task_data = Inr (Some (update_task_fields t task_data), d')
                \<and> get_task d' oid tid = Some (update_task_fields t task_data)"
      by simp
  qed
  have sup:
    "\<forall>v. Item_id v \<in> set task_data \<longrightarrow> task_id (update_task_fields t task_data) = v"
    "\<forall>v. Item_owner_id v \<in> set task_data \<longrightarrow> owner_id (update_task_fields t task_data) = v"
    "\<forall>v. Item_name v \<in> set task_data \<longrightarrow> name (update_task_fields t task_data) = v"
    "\<forall>v. Item_description v \<in> set task_data \<longrightarrow> description (update_task_fields t task_data) = v"
    "\<forall>v. Item_category v \<in> set task_data \<longrightarrow> category (update_task_fields t task_data) = v"
    "\<forall>v. Item_dueDate v \<in> set task_data \<longrightarrow> dueDate (update_task_fields t task_data) = v"
    "\<forall>v. Item_parameters v \<in> set task_data \<longrightarrow> parameters (update_task_fields t task_data) = v"
    "\<forall>v. Item_completed v \<in> set task_data \<longrightarrow> completed (update_task_fields t task_data) = v"
    "\<forall>v. Item_tags v \<in> set task_data \<longrightarrow> task_tags (update_task_fields t task_data) = v"
    "\<forall>v. Item_priority v \<in> set task_data \<longrightarrow> priority (update_task_fields t task_data) = v"
    using assms(2)
    by (simp_all add: update_task_fields_Item_id update_task_fields_Item_owner_id
        update_task_fields_Item_name update_task_fields_Item_description
        update_task_fields_Item_category update_task_fields_Item_dueDate
        update_task_fields_Item_parameters update_task_fields_Item_completed
        update_task_fields_Item_tags update_task_fields_Item_priority)
  have absent:
    "''id'' \<notin> set (map item_key task_data) \<longrightarrow> task_id (update_task_fields t task_data) = task_id t"
    "''owner_id'' \<notin> set (map item_key task_data) \<longrightarrow> owner_id (update_task_fields t task_data) = owner_id t"
    "''name'' \<notin> set (map item_key task_data) \<longrightarrow> name (update_task_fields t task_data) = name t"
    "''description'' \<notin> set (map item_key task_data) \<longrightarrow> description (update_task_fields t task_data) = description t"
    "''category'' \<notin> set (map item_key task_data) \<longrightarrow> category (update_task_fields t task_data) = category t"
    "''dueDate'' \<notin> set (map item_key task_data) \<longrightarrow> dueDate (update_task_fields t task_data) = dueDate t"
    "''parameters'' \<notin> set (map item_key task_data) \<longrightarrow> parameters (update_task_fields t task_data) = parameters t"
    "''completed'' \<notin> set (map item_key task_data) \<longrightarrow> completed (update_task_fields t task_data) = completed t"
    "''tags'' \<notin> set (map item_key task_data) \<longrightarrow> task_tags (update_task_fields t task_data) = task_tags t"
    "''priority'' \<notin> set (map item_key task_data) \<longrightarrow> priority (update_task_fields t task_data) = priority t"
    by (simp_all add: update_task_fields_absent)
  show ?thesis
    unfolding Let_def by (intro conjI; fact)
qed

lemma update_task_partial_example:
  "get_task sample_db 1 1 = Some ship_it \<and> distinct (map item_key [Item_name ''Ship it now''])
   \<and> update_task sample_db 1 1 [Item_name ''Ship it now'']
       = Inr (Some (ship_it\<lparr>name := ''Ship it now''\<rparr>),
              sample_db\<lparr>tasks := [ship_it\<lparr>name := ''Ship it now''\<rparr>, buy_milk, call_home],
                        commits := 1\<rparr>)
   \<and> name (update_task_fields ship_it [Item_name ''Ship it now'']) = ''Ship it now''
   \<and> priority (update_task_fields ship_it [Item_name ''Ship it now'']) = 2
   \<and> completed (update_task_fields ship_it [Item_name ''Ship it now'']) = completed ship_it
   \<and> task_tags (update_task_fields ship_it [Item_name ''Ship it now'']) = task_tags ship_it
   \<and> category (update_task_fields ship_it [Item_name ''Ship it now'']) = category ship_it
   \<and> description (update_task_fields ship_it [Item_name ''Ship it now'']) = description ship_it
   \<and> dueDate (update_task_fields ship_it [Item_name ''Ship it now'']) = dueDate ship_it
   \<and> parameters (update_task_fields ship_it [Item_name ''Ship it now'']) = parameters ship_it"
proof -
  have g: "get_task sample_db 1 1 = Some ship_it"
    by (simp add: get_task_def sample_db_def ship_it_def)
  have k: "distinct (map item_key [Item_name ''Ship it now''])"
    by simp
  have p: "priority ship_it = 2"
    by (simp add: ship_it_def)
  have u: "update_task sample_db 1 1 [Item_name ''Ship it now'']
       = Inr (Some (ship_it\<lparr>name := ''Ship it now''\<rparr>),
              sample_db\<lparr>tasks := [ship_it\<lparr>name := ''Ship it now''\<rparr>, buy_milk, call_home],
                        commits := 1\<rparr>)"
    by (simp add: update_task_def g commit_def write_task_def Let_def)
      (simp add: sample_db_def ship_it_def buy_milk_def call_home_def)
  show ?thesis
    using update_task_partial [OF g k] g p u
    by (simp add: Let_def)
qed

text \<open>
  The dict the route builds always carries \<open>priority\<close>, so it is never the dict of a
  name alone: whatever the body leaves out, a task the route updates ends with the
  payload's priority, which is 0 when the body has none.
\<close>

lemma update_data_distinct: "distinct (map item_key (update_data payload))"
  by (simp add: update_data_def split: option.splits)

lemma update_data_priority: "Item_priority (tu_priority payload) \<in> set (update_data payload)"
  by (simp add: update_data_def)

lemma update_data_name_only:
  "update_data \<lparr>tu_name = Some n, tu_description = None, tu_category = None, tu_dueDate = None,
      tu_parameters = None, tu_completed = None, tu_tags = None, tu_priority = 0\<rparr>
   = [Item_name n, Item_priority 0]"
  by (simp add: update_data_def)

lemma new_TaskUpdate_priority:
  assumes "new_TaskUpdate b = Inr payload"
  shows "tu_priority payload = (case b_priority b of None \<Rightarrow> 0 | Some pr \<Rightarrow> pr)"
  using assms
  by (auto simp: new_TaskUpdate_def validate_priority_def split: sum.splits if_splits)

lemma update_task_route_priority:
  assumes "get_task d uid tid = Some t" and "update_task_route d uid tid payload = Inr (t', d')"
  shows "priority t' = tu_priority payload"
proof -
  from assms(2) have "update_task d uid tid (update_data payload) = Inr (Some t', d')"
    by (auto simp: update_task_route_def split: sum.splits option.splits)
  from update_task_found(1) [OF assms(1) this]
  have "t' = update_task_fields t (update_data payload)"
    by simp
  with update_task_fields_Item_priority [OF update_data_distinct update_data_priority]
  show ?thesis by simp
qed

text \<open>
  C3. The claim fails on the route that is the only caller of \<open>update_task\<close>. A body
  that supplies nothing but a new name is accepted as a payload of priority 0, the dict
  built from it names \<open>name\<close> and \<open>priority\<close>, and the update of a task of priority 2
  stores and returns it with priority 0: a field the request did not supply is changed.
\<close>

theorem update_task_route_resets_priority:
  "new_TaskUpdate \<lparr>b_name = Some ''Ship it now'', b_description = None, b_category = None,
       b_dueDate = None, b_parameters = None, b_completed = None, b_tags = None,
       b_priority = None\<rparr>
     = Inr \<lparr>tu_name = Some ''Ship it now'', tu_description = None, tu_category = None,
         tu_dueDate = None, tu_parameters = None, tu_completed = None, tu_tags = None,
         tu_priority = 0\<rparr>
   \<and> update_data \<lparr>tu_name = Some ''Ship it now'', tu_description = None, tu_category = None,
         tu_dueDate = None, tu_parameters = None, tu_completed = None, tu_tags = None,
         tu_priority = 0\<rparr>
     = [Item_name ''Ship it now'', Item_priority 0]
   \<and> get_task sample_db 1 1 = Some ship_it
   \<and> priority ship_it = 2
   \<and> update_task_route sample_db 1 1
         \<lparr>tu_name = Some ''Ship it now'', tu_description = None, tu_category = None,
          tu_dueDate = None, tu_parameters = None, tu_completed = None, tu_tags = None,
          tu_priority = 0\<rparr>
     = Inr (ship_it\<lparr>name := ''Ship it now'', priority := 0\<rparr>,
            sample_db\<lparr>tasks := [ship_it\<lparr>name := ''Ship it now'', priority := 0\<rparr>,
                                 buy_milk, call_home],
                      commits := 1\<rparr>)
   \<and> priority (ship_it\<lparr>name := ''Ship it now'', priority := 0\<rparr>) \<noteq> priority ship_it"
proof -
  have b: "new_TaskUpdate \<lparr>b_name = Some ''Ship it now'', b_description = None,
       b_category = None, b_dueDate = None, b_parameters = None, b_completed = None,
       b_tags = None, b_priority = None\<rparr>
     = Inr \<lparr>tu_name = Some ''Ship it now'', tu_description = None, tu_category = None,
         tu_dueDate = None, tu_parameters = None, tu_completed = None, tu_tags = None,
         tu_priority = 0\<rparr>"
    by (simp add: new_TaskUpdate_def validate_update_name_def validate_update_text_def
        validate_priority_def trim_def is_whitespace_def py_strip_def py_isspace_def)
  have g: "get_task sample_db 1 1 = Some ship_it"
    by (simp add: get_task_def sample_db_def ship_it_def)
  have p: "priority ship_it = 2"
    by (simp add: ship_it_def)
  have u: "update_task sample_db 1 1 [Item_name ''Ship it now'', Item_priority 0]
     = Inr (Some (ship_it\<lparr>name := ''Ship it now'', priority := 0\<rparr>),
            sample_db\<lparr>tasks := [ship_it\<lparr>name := ''Ship it now'', priority := 0\<rparr>,
                                 buy_milk, call_home],
                      commits := 1\<rparr>)"
    by (simp add: update_task_def g commit_def write_task_def Let_def)
      (simp add: sample_db_def ship_it_def buy_milk_def call_home_def)
  have r: "update_task_route sample_db 1 1
         \<lparr>tu_name = Some ''Ship it now'', tu_description = None, tu_category = None,
          tu_dueDate = None, tu_parameters = None, tu_completed = None, tu_tags = None,
          tu_priority = 0\<rparr>
     = Inr (ship_it\<lparr>name := ''Ship it now'', priority := 0\<rparr>,
            sample_db\<lparr>tasks := [ship_it\<lparr>name := ''Ship it now'', priority := 0\<rparr>,
                                 buy_milk, call_home],
                      commits := 1\<rparr>)"
    by (simp add: update_task_route_def update_data_name_only u)
  have n: "priority (ship_it\<lparr>name := ''Ship it now'', priority := 0\<rparr>) \<noteq> priority ship_it"
    by (simp add: p)
  from b update_data_name_only [of "''Ship it now''"] g p r n show ?thesis
    by (intro conjI)
qed

section \<open>Categories in use\<close>

lemma distinct_on_subset: "set (distinct_on key rs) \<subseteq> set rs"
  by (induction key rs rule: distinct_on.induct) auto

lemma distinct_on_keys: "key ` set (distinct_on key rs) = key ` set rs"
proof (induction key rs rule: distinct_on.induct)
  case (1 key)
  show ?case by simp
next
  case (2 key r rs)
  have "key ` set (r # rs) = insert (key r) (key ` set (filter (\<lambda>x. key x \<noteq> key r) rs))"
    by auto
  with 2 show ?case by simp
qed

lemma task_get_categories_set:
  "set (task_get_categories d oid) = category ` {t \<in> set (tasks d). owner_id t = oid}"
proof -
  have "set (task_get_categories d oid)
      = category ` set (distinct_on category (filter (\<lambda>t. owner_id t = oid) (tasks d)))"
    by (simp add: task_get_categories_def)
  also have "\<dots> = category ` set (filter (\<lambda>t. owner_id t = oid) (tasks d))"
    by (rule distinct_on_keys)
  also have "\<dots> = category ` {t \<in> set (tasks d). owner_id t = oid}"
    by simp
  finally show ?thesis .
qed

lemma json_get_categories_exists: "\<exists>r. json_get_categories file oid r"
proof -
  have "\<exists>r. list_of_set (set xs) r" for xs :: "string list"
    unfolding list_of_set_def by (rule exI [of _ "remdups xs"]) simp
  then show ?thesis
    unfolding json_get_categories_def Let_def by blast
qed

text \<open>
  C6, as the code has it. \<open>TaskService.get_categories\<close> returns the category labels of
  the owner's tasks, each once, in ascending lexicographic order, for every owner id.
  \<open>TaskServiceJson.get_categories\<close> returns some list holding each label once (a missing
  category key reads as \<open>General\<close>): the labels of the owner's rows when the owner id is
  not 0, the labels of all rows when it is 0.
\<close>

theorem get_categories_in_use:
  "sorted (task_get_categories d oid) \<and> distinct (task_get_categories d oid)
   \<and> set (task_get_categories d oid) = category ` {t \<in> set (tasks d). owner_id t = oid}
   \<and> (\<exists>r. json_get_categories file oid r)
   \<and> (json_get_categories file oid r \<longrightarrow>
         distinct r
       \<and> (oid \<noteq> 0 \<longrightarrow> set r = (\<lambda>t. case j_category t of None \<Rightarrow> ''General'' | Some c \<Rightarrow> c)
                                    ` {t \<in> set file. j_owner_id t = Some oid})
       \<and> (oid = 0 \<longrightarrow> set r = (\<lambda>t. case j_category t of None \<Rightarrow> ''General'' | Some c \<Rightarrow> c)
                                    ` set file))"
proof -
  have s: "sorted (task_get_categories d oid)" "distinct (task_get_categories d oid)"
    by (simp_all add: task_get_categories_def)
  have j: "distinct r
       \<and> (oid \<noteq> 0 \<longrightarrow> set r = (\<lambda>t. case j_category t of None \<Rightarrow> ''General'' | Some c \<Rightarrow> c)
                                    ` {t \<in> set file. j_owner_id t = Some oid})
       \<and> (oid = 0 \<longrightarrow> set r = (\<lambda>t. case j_category t of None \<Rightarrow> ''General'' | Some c \<Rightarrow> c)
                                    ` set file)"
    if "json_get_categories file oid r"
    using that by (auto simp: json_get_categories_def list_of_set_def Let_def)
  from s task_get_categories_set [of d oid] json_get_categories_exists [of "file" oid] j
  show ?thesis by blast
qed

theorem get_categories_in_use_witness:
  "task_get_categories sample_db 1 = [''Family'', ''Work'']
   \<and> json_get_categories sample_file 1 [''Work'', ''Errands'']
   \<and> set [''Work'', ''Errands'']
       = (\<lambda>t. case j_category t of None \<Rightarrow> ''General'' | Some c \<Rightarrow> c)
           ` {t \<in> set sample_file. j_owner_id t = Some 1}"
proof -
  have t: "task_get_categories sample_db 1 = [''Family'', ''Work'']"
    by (simp add: task_get_categories_def sample_db_def ship_it_def buy_milk_def call_home_def)
  have j: "json_get_categories sample_file 1 [''Work'', ''Errands'']"
    by (simp add: json_get_categories_def list_of_set_def sample_file_def json_row_def)
  show ?thesis
    using get_categories_in_use [of sample_db 1 sample_file "[''Work'', ''Errands'']"] t j
    by simp
qed

text \<open>
  The claim as worded fails on the JSON-file service: asked for owner 0, who has no row
  in the file, it gives the label of another owner's row; and a list out of order is
  among its results.
\<close>

theorem get_categories_in_use_counterexample:
  "json_get_categories [json_row 1 1 ''Work''] 0 [''Work'']
   \<and> j_owner_id (json_row 1 1 ''Work'') \<noteq> Some 0
   \<and> json_get_categories sample_file 1 [''Work'', ''Errands'']
   \<and> \<not> sorted [''Work'', ''Errands'']"
  by (simp add: json_get_categories_def list_of_set_def sample_file_def json_row_def)

section \<open>Creating a task\<close>



lemma wf_db_empty: "wf_db empty_db"
  by (simp add: wf_db_def empty_db_def)

lemma create_task_ok:
  assumes "wf_db d" and "tc_owner_id tc \<in> set (map user_id (users d))"
  shows "create_task d tc =
     Inr (\<lparr>task_id = tasks_id_seq d, owner_id = tc_owner_id tc, name = tc_name tc,
           description = tc_description tc, category = tc_category tc,
           dueDate = tc_dueDate tc, parameters = tc_parameters tc,
           completed = tc_completed tc, task_tags = tc_tags tc, priority = tc_priority tc\<rparr>,
          commit (d\<lparr>tasks := tasks d @
            [\<lparr>task_id = tasks_id_seq d, owner_id = tc_owner_id tc, name = tc_name tc,
              description = tc_description tc, category = tc_category tc,
              dueDate = tc_dueDate tc, parameters = tc_parameters tc,
              completed = tc_completed tc, task_tags = tc_tags tc,
              priority = tc_priority tc\<rparr>],
            tasks_id_seq := tasks_id_seq d + 1\<rparr>))"
proof -
  have "tasks_id_seq d \<notin> set (map task_id (tasks d))"
    using assms(1) by (auto simp: wf_db_def)
  with assms(2) show ?thesis
    by (simp add: create_task_def Let_def)
qed

lemma create_task_wf:
  assumes "wf_db d" and "create_task d tc = Inr (t, d')"
  shows "wf_db d'"
proof -
  from assms(2) have o: "tc_owner_id tc \<in> set (map user_id (users d))"
    by (auto simp: create_task_def Let_def split: if_splits)
  from assms(2) create_task_ok [OF assms(1) o] have
    d': "d' = commit (d\<lparr>tasks := tasks d @ [t], tasks_id_seq := tasks_id_seq d + 1\<rparr>)"
    and t: "task_id t = tasks_id_seq d" "owner_id t = tc_owner_id tc"
    by auto
  have fresh: "task_id t \<notin> set (map task_id (tasks d))"
    using assms(1) t by (auto simp: wf_db_def)
  have "\<forall>r\<in>set (tasks d). task_id r < tasks_id_seq d + 1"
    using assms(1) by (auto simp: wf_db_def)
  with assms(1) fresh o t show ?thesis
    by (auto simp: wf_db_def d' commit_def)
qed





section \<open>Updating a user\<close>

lemma update_user_fields_id:
  "update_user_fields u items = Inr u' \<Longrightarrow> user_id u' = user_id u"
proof (induction items arbitrary: u)
  case Nil
  then show ?case by simp
next
  case (Cons item items)
  then show ?case
    by (cases item) (auto split: option.splits sum.splits)
qed

lemma update_user_fields_absent_username:
  "update_user_fields u items = Inr u' \<Longrightarrow> ''username'' \<notin> set (map user_item_key items)
     \<Longrightarrow> username u' = username u"
proof (induction items arbitrary: u)
  case Nil
  then show ?case by simp
next
  case (Cons item items)
  then show ?case
    by (cases item) (auto split: option.splits sum.splits)
qed

lemma update_user_fields_absent_email:
  "update_user_fields u items = Inr u' \<Longrightarrow> ''email'' \<notin> set (map user_item_key items)
     \<Longrightarrow> email u' = email u"
proof (induction items arbitrary: u)
  case Nil
  then show ?case by simp
next
  case (Cons item items)
  then show ?case
    by (cases item) (auto split: option.splits sum.splits)
qed

lemma update_user_fields_absent_hashed_password:
  "update_user_fields u items = Inr u' \<Longrightarrow> ''hashed_password'' \<notin> set (map user_item_key items)
     \<Longrightarrow> hashed_password u' = hashed_password u"
proof (induction items arbitrary: u)
  case Nil
  then show ?case by simp
next
  case (Cons item items)
  then show ?case
    by (cases item) (auto split: option.splits sum.splits)
qed

lemma update_user_fields_absent_full_name:
  "update_user_fields u items = Inr u' \<Longrightarrow> ''full_name'' \<notin> set (map user_item_key items)
     \<Longrightarrow> full_name u' = full_name u"
proof (induction items arbitrary: u)
  case Nil
  then show ?case by simp
next
  case (Cons item items)
  then show ?case
    by (cases item) (auto split: option.splits sum.splits)
qed

lemma update_user_fields_absent_disabled:
  "update_user_fields u items = Inr u' \<Longrightarrow> ''disabled'' \<notin> set (map user_item_key items)
     \<Longrightarrow> disabled u' = disabled u"
proof (induction items arbitrary: u)
  case Nil
  then show ?case by simp
next
  case (Cons item items)
  then show ?case
    by (cases item) (auto split: option.splits sum.splits)
qed

lemma update_user_fields_absent_categories:
  "update_user_fields u items = Inr u' \<Longrightarrow> ''categories'' \<notin> set (map user_item_key items)
     \<Longrightarrow> categories u' = categories u"
proof (induction items arbitrary: u)
  case Nil
  then show ?case by simp
next
  case (Cons item items)
  then show ?case
    by (cases item) (auto split: option.splits sum.splits)
qed

lemma update_user_fields_absent_tags:
  "update_user_fields u items = Inr u' \<Longrightarrow> ''tags'' \<notin> set (map user_item_key items)
     \<Longrightarrow> tags u' = tags u"
proof (induction items arbitrary: u)
  case Nil
  then show ?case by simp
next
  case (Cons item items)
  then show ?case
    by (cases item) (auto split: option.splits sum.splits)
qed

lemma update_user_fields_tail:
  "update_user_fields u (item # items) = Inr u' \<Longrightarrow> \<exists>u1. update_user_fields u1 items = Inr u'"
  by (cases item) (auto split: option.splits sum.splits)

lemma update_user_fields_UItem_username:
  "distinct (map user_item_key items) \<Longrightarrow> UItem_username v \<in> set items
     \<Longrightarrow> update_user_fields u items = Inr u' \<Longrightarrow> username u' = v"
proof (induction items arbitrary: u)
  case Nil
  then show ?case by simp
next
  case (Cons item items)
  show ?case
  proof (cases "item = UItem_username v")
    case True
    with Cons.prems(1) have "''username'' \<notin> set (map user_item_key items)" by simp
    moreover from True Cons.prems(3) have "update_user_fields (u\<lparr>username := v\<rparr>) items = Inr u'"
      by simp
    ultimately show ?thesis
      using update_user_fields_absent_username [of "u\<lparr>username := v\<rparr>" items u'] by simp
  next
    case False
    with Cons.prems have "distinct (map user_item_key items)" "UItem_username v \<in> set items" by simp_all
    moreover from update_user_fields_tail [OF Cons.prems(3)] obtain u1 where
      "update_user_fields u1 items = Inr u'" by blast
    ultimately show ?thesis by (rule Cons.IH)
  qed
qed

lemma update_user_fields_UItem_email:
  "distinct (map user_item_key items) \<Longrightarrow> UItem_email v \<in> set items
     \<Longrightarrow> update_user_fields u items = Inr u' \<Longrightarrow> email u' = v"
proof (induction items arbitrary: u)
  case Nil
  then show ?case by simp
next
  case (Cons item items)
  show ?case
  proof (cases "item = UItem_email v")
    case True
    with Cons.prems(1) have "''email'' \<notin> set (map user_item_key items)" by simp
    moreover from True Cons.prems(3) have "update_user_fields (u\<lparr>email := v\<rparr>) items = Inr u'"
      by simp
    ultimately show ?thesis
      using update_user_fields_absent_email [of "u\<lparr>email := v\<rparr>" items u'] by simp
  next
    case False
    with Cons.prems have "distinct (map user_item_key items)" "UItem_email v \<in> set items" by simp_all
    moreover from update_user_fields_tail [OF Cons.prems(3)] obtain u1 where
      "update_user_fields u1 items = Inr u'" by blast
    ultimately show ?thesis by (rule Cons.IH)
  qed
qed

lemma update_user_fields_UItem_hashed_password:
  "distinct (map user_item_key items) \<Longrightarrow> UItem_hashed_password v \<in> set items
     \<Longrightarrow> update_user_fields u items = Inr u' \<Longrightarrow> hashed_password u' = v"
proof (induction items arbitrary: u)
  case Nil
  then show ?case by simp
next
  case (Cons item items)
  show ?case
  proof (cases "item = UItem_hashed_password v")
    case True
    with Cons.prems(1) have "''hashed_password'' \<notin> set (map user_item_key items)" by simp
    moreover from True Cons.prems(3) have "update_user_fields (u\<lparr>hashed_password := v\<rparr>) items = Inr u'"
      by simp
    ultimately show ?thesis
      using update_user_fields_absent_hashed_password [of "u\<lparr>hashed_password := v\<rparr>" items u'] by simp
  next
    case False
    with Cons.prems have "distinct (map user_item_key items)" "UItem_hashed_password v \<in> set items" by simp_all
    moreover from update_user_fields_tail [OF Cons.prems(3)] obtain u1 where
      "update_user_fields u1 items = Inr u'" by blast
    ultimately show ?thesis by (rule Cons.IH)
  qed
qed

lemma update_user_fields_UItem_full_name:
  "distinct (map user_item_key items) \<Longrightarrow> UItem_full_name v \<in> set items
     \<Longrightarrow> update_user_fields u items = Inr u' \<Longrightarrow> full_name u' = v"
proof (induction items arbitrary: u)
  case Nil
  then show ?case by simp
next
  case (Cons item items)
  show ?case
  proof (cases "item = UItem_full_name v")
    case True
    with Cons.prems(1) have "''full_name'' \<notin> set (map user_item_key items)" by simp
    moreover from True Cons.prems(3) have "update_user_fields (u\<lparr>full_name := v\<rparr>) items = Inr u'"
      by simp
    ultimately show ?thesis
      using update_user_fields_absent_full_name [of "u\<lparr>full_name := v\<rparr>" items u'] by simp
  next
    case False
    with Cons.prems have "distinct (map user_item_key items)" "UItem_full_name v \<in> set items" by simp_all
    moreover from update_user_fields_tail [OF Cons.prems(3)] obtain u1 where
      "update_user_fields u1 items = Inr u'" by blast
    ultimately show ?thesis by (rule Cons.IH)
  qed
qed

lemma update_user_fields_UItem_disabled:
  "distinct (map user_item_key items) \<Longrightarrow> UItem_disabled v \<in> set items
     \<Longrightarrow> update_user_fields u items = Inr u' \<Longrightarrow> disabled u' = v"
proof (induction items arbitrary: u)
  case Nil
  then show ?case by simp
next
  case (Cons item items)
  show ?case
  proof (cases "item = UItem_disabled v")
    case True
    with Cons.prems(1) have "''disabled'' \<notin> set (map user_item_key items)" by simp
    moreover from True Cons.prems(3) have "update_user_fields (u\<lparr>disabled := v\<rparr>) items = Inr u'"
      by simp
    ultimately show ?thesis
      using update_user_fields_absent_disabled [of "u\<lparr>disabled := v\<rparr>" items u'] by simp
  next
    case False
    with Cons.prems have "distinct (map user_item_key items)" "UItem_disabled v \<in> set items" by simp_all
    moreover from update_user_fields_tail [OF Cons.prems(3)] obtain u1 where
      "update_user_fields u1 items = Inr u'" by blast
    ultimately show ?thesis by (rule Cons.IH)
  qed
qed

lemma update_user_fields_UItem_categories_None:
  "distinct (map user_item_key items) \<Longrightarrow> UItem_categories None \<in> set items
     \<Longrightarrow> update_user_fields u items = Inr u' \<Longrightarrow> categories u' = None"
proof (induction items arbitrary: u)
  case Nil
  then show ?case by simp
next
  case (Cons item items)
  show ?case
  proof (cases "item = UItem_categories None")
    case True
    with Cons.prems(1) have "''categories'' \<notin> set (map user_item_key items)" by simp
    moreover from True Cons.prems(3) have "update_user_fields (u\<lparr>categories := None\<rparr>) items = Inr u'"
      by simp
    ultimately show ?thesis
      using update_user_fields_absent_categories [of "u\<lparr>categories := None\<rparr>" items u'] by simp
  next
    case False
    with Cons.prems have "distinct (map user_item_key items)" "UItem_categories None \<in> set items"
      by simp_all
    moreover from update_user_fields_tail [OF Cons.prems(3)] obtain u1 where
      "update_user_fields u1 items = Inr u'" by blast
    ultimately show ?thesis by (rule Cons.IH)
  qed
qed

lemma update_user_fields_UItem_categories_Some:
  "distinct (map user_item_key items) \<Longrightarrow> UItem_categories (Some v) \<in> set items
     \<Longrightarrow> update_user_fields u items = Inr u'
     \<Longrightarrow> \<exists>v'. map_result Category_of v = Inr v' \<and> categories u' = Some v'"
proof (induction items arbitrary: u)
  case Nil
  then show ?case by simp
next
  case (Cons item items)
  show ?case
  proof (cases "item = UItem_categories (Some v)")
    case True
    with Cons.prems(1) have k: "''categories'' \<notin> set (map user_item_key items)" by simp
    from True Cons.prems(3) obtain v' where v': "map_result Category_of v = Inr v'"
      "update_user_fields (u\<lparr>categories := Some v'\<rparr>) items = Inr u'"
      by (auto split: sum.splits)
    from update_user_fields_absent_categories [OF v'(2) k] v'(1) show ?thesis by simp
  next
    case False
    with Cons.prems have "distinct (map user_item_key items)" "UItem_categories (Some v) \<in> set items"
      by simp_all
    moreover from update_user_fields_tail [OF Cons.prems(3)] obtain u1 where
      "update_user_fields u1 items = Inr u'" by blast
    ultimately show ?thesis by (rule Cons.IH)
  qed
qed

lemma update_user_fields_UItem_tags_None:
  "distinct (map user_item_key items) \<Longrightarrow> UItem_tags None \<in> set items
     \<Longrightarrow> update_user_fields u items = Inr u' \<Longrightarrow> tags u' = None"
proof (induction items arbitrary: u)
  case Nil
  then show ?case by simp
next
  case (Cons item items)
  show ?case
  proof (cases "item = UItem_tags None")
    case True
    with Cons.prems(1) have "''tags'' \<notin> set (map user_item_key items)" by simp
    moreover from True Cons.prems(3) have "update_user_fields (u\<lparr>tags := None\<rparr>) items = Inr u'"
      by simp
    ultimately show ?thesis
      using update_user_fields_absent_tags [of "u\<lparr>tags := None\<rparr>" items u'] by simp
  next
    case False
    with Cons.prems have "distinct (map user_item_key items)" "UItem_tags None \<in> set items"
      by simp_all
    moreover from update_user_fields_tail [OF Cons.prems(3)] obtain u1 where
      "update_user_fields u1 items = Inr u'" by blast
    ultimately show ?thesis by (rule Cons.IH)
  qed
qed

lemma update_user_fields_UItem_tags_Some:
  "distinct (map user_item_key items) \<Longrightarrow> UItem_tags (Some v) \<in> set items
     \<Longrightarrow> update_user_fields u items = Inr u'
     \<Longrightarrow> \<exists>v'. map_result Tag_of v = Inr v' \<and> tags u' = Some v'"
proof (induction items arbitrary: u)
  case Nil
  then show ?case by simp
next
  case (Cons item items)
  show ?case
  proof (cases "item = UItem_tags (Some v)")
    case True
    with Cons.prems(1) have k: "''tags'' \<notin> set (map user_item_key items)" by simp
    from True Cons.prems(3) obtain v' where v': "map_result Tag_of v = Inr v'"
      "update_user_fields (u\<lparr>tags := Some v'\<rparr>) items = Inr u'"
      by (auto split: sum.splits)
    from update_user_fields_absent_tags [OF v'(2) k] v'(1) show ?thesis by simp
  next
    case False
    with Cons.prems have "distinct (map user_item_key items)" "UItem_tags (Some v) \<in> set items"
      by simp_all
    moreover from update_user_fields_tail [OF Cons.prems(3)] obtain u1 where
      "update_user_fields u1 items = Inr u'" by blast
    ultimately show ?thesis by (rule Cons.IH)
  qed
qed

lemma map_result_Category_of:
  "map_result Category_of cs = Inr cs'
     \<Longrightarrow> cs' = map (\<lambda>c. c\<lparr>cat_name := py_strip (cat_name c)\<rparr>) cs
       \<and> (\<forall>c\<in>set cs. py_strip (cat_name c) \<noteq> [])"
  by (induction cs arbitrary: cs') (auto simp: Category_of_def split: sum.splits if_splits)

lemma map_result_Tag_of:
  "map_result Tag_of ts = Inr ts'
     \<Longrightarrow> ts' = map (\<lambda>t. t\<lparr>tag_name := py_strip (tag_name t)\<rparr>) ts
       \<and> (\<forall>t\<in>set ts. py_strip (tag_name t) \<noteq> [])"
  by (induction ts arbitrary: ts') (auto simp: Tag_of_def split: sum.splits if_splits)

lemma update_user_fields_plain:
  "''categories'' \<notin> set (map user_item_key items) \<Longrightarrow> ''tags'' \<notin> set (map user_item_key items)
     \<Longrightarrow> \<exists>u'. update_user_fields u items = Inr u'"
proof (induction items arbitrary: u)
  case Nil
  then show ?case by simp
next
  case (Cons item items)
  then show ?case
    by (cases item) auto
qed

lemma update_user_found:
  assumes "get_user d uid = Some u" and "update_user d uid user_data = Inr (r, d')"
  shows "\<exists>u'. update_user_fields u user_data = Inr u' \<and> r = Some u'
           \<and> d' = commit (d\<lparr>users := write_user uid u' (users d)\<rparr>)"
  using assms get_user_id [OF assms(1)]
  by (auto simp: update_user_def split: sum.splits if_splits)

text \<open>
  C9. \<open>update_user\<close> never changes the identity. Take a user that exists and a dict
  (its keys distinct), with or without an \<open>id\<close> entry. Whenever the call returns, it
  returns a row with the identity the user had, the row \<open>get_user\<close> then reads; every
  other field the dict names holds the dict's value (a category or tag list after the
  name validator, which strips each name), and every field it does not name holds the
  value it had before. The call does return when the dict names none of \<open>username\<close>,
  \<open>categories\<close> and \<open>tags\<close> (a username in use is refused by the commit, a blank
  category or tag name by the validator).
\<close>

theorem update_user_keeps_id:
  assumes "get_user d uid = Some u" and "distinct (map user_item_key user_data)"
  shows "(\<forall>r d'. update_user d uid user_data = Inr (r, d') \<longrightarrow>
           (\<exists>u'. r = Some u'
          \<and> user_id u' = user_id u
          \<and> user_id u' = uid
          \<and> get_user d' uid = Some u'
          \<and> (\<forall>v. UItem_username v \<in> set user_data \<longrightarrow> username u' = v)
          \<and> (\<forall>v. UItem_email v \<in> set user_data \<longrightarrow> email u' = v)
          \<and> (\<forall>v. UItem_hashed_password v \<in> set user_data \<longrightarrow> hashed_password u' = v)
          \<and> (\<forall>v. UItem_full_name v \<in> set user_data \<longrightarrow> full_name u' = v)
          \<and> (\<forall>v. UItem_disabled v \<in> set user_data \<longrightarrow> disabled u' = v)
          \<and> (UItem_categories None \<in> set user_data \<longrightarrow> categories u' = None)
          \<and> (\<forall>v. UItem_categories (Some v) \<in> set user_data \<longrightarrow>
              categories u' = Some (map (\<lambda>c. c\<lparr>cat_name := py_strip (cat_name c)\<rparr>) v))
          \<and> (UItem_tags None \<in> set user_data \<longrightarrow> tags u' = None)
          \<and> (\<forall>v. UItem_tags (Some v) \<in> set user_data \<longrightarrow>
              tags u' = Some (map (\<lambda>t. t\<lparr>tag_name := py_strip (tag_name t)\<rparr>) v))
          \<and> (''username'' \<notin> set (map user_item_key user_data) \<longrightarrow> username u' = username u)
          \<and> (''email'' \<notin> set (map user_item_key user_data) \<longrightarrow> email u' = email u)
          \<and> (''hashed_password'' \<notin> set (map user_item_key user_data) \<longrightarrow> hashed_password u' = hashed_password u)
          \<and> (''full_name'' \<notin> set (map user_item_key user_data) \<longrightarrow> full_name u' = full_name u)
          \<and> (''disabled'' \<notin> set (map user_item_key user_data) \<longrightarrow> disabled u' = disabled u)
          \<and> (''categories'' \<notin> set (map user_item_key user_data) \<longrightarrow> categories u' = categories u)
          \<and> (''tags'' \<notin> set (map user_item_key user_data) \<longrightarrow> tags u' = tags u)))
     \<and> (''username'' \<notin> set (map user_item_key user_data)
        \<and> ''categories'' \<notin> set (map user_item_key user_data)
        \<and> ''tags'' \<notin> set (map user_item_key user_data) \<longrightarrow>
          (\<exists>u' d'. update_user d uid user_data = Inr (Some u', d')))"
proof (intro conjI allI impI)
  fix r d'
  assume "update_user d uid user_data = Inr (r, d')"
  from update_user_found [OF assms(1) this] obtain u' where
    f: "update_user_fields u user_data = Inr u'" and r: "r = Some u'"
    and d': "d' = commit (d\<lparr>users := write_user uid u' (users d)\<rparr>)"
    by blast
  note k = assms(2)
  have i: "user_id u' = user_id u" "user_id u' = uid"
    using update_user_fields_id [OF f] get_user_id [OF assms(1)] by simp_all
  have g: "get_user d' uid = Some u'"
    using get_user_written [OF assms(1) i(2)] by (simp add: d')
  have 1: "\<forall>v. UItem_username v \<in> set user_data \<longrightarrow> username u' = v"
    using update_user_fields_UItem_username [OF k _ f] by blast
  have 2: "\<forall>v. UItem_email v \<in> set user_data \<longrightarrow> email u' = v"
    using update_user_fields_UItem_email [OF k _ f] by blast
  have 3: "\<forall>v. UItem_hashed_password v \<in> set user_data \<longrightarrow> hashed_password u' = v"
    using update_user_fields_UItem_hashed_password [OF k _ f] by blast
  have 4: "\<forall>v. UItem_full_name v \<in> set user_data \<longrightarrow> full_name u' = v"
    using update_user_fields_UItem_full_name [OF k _ f] by blast
  have 5: "\<forall>v. UItem_disabled v \<in> set user_data \<longrightarrow> disabled u' = v"
    using update_user_fields_UItem_disabled [OF k _ f] by blast
  have 6: "UItem_categories None \<in> set user_data \<longrightarrow> categories u' = None"
    using update_user_fields_UItem_categories_None [OF k _ f] by blast
  have 7: "\<forall>v. UItem_categories (Some v) \<in> set user_data \<longrightarrow>
      categories u' = Some (map (\<lambda>c. c\<lparr>cat_name := py_strip (cat_name c)\<rparr>) v)"
  proof (intro allI impI)
    fix v assume "UItem_categories (Some v) \<in> set user_data"
    from update_user_fields_UItem_categories_Some [OF k this f] obtain v' where
      "map_result Category_of v = Inr v'" "categories u' = Some v'" by blast
    with map_result_Category_of [of v v']
    show "categories u' = Some (map (\<lambda>c. c\<lparr>cat_name := py_strip (cat_name c)\<rparr>) v)"
      by simp
  qed
  have 8: "UItem_tags None \<in> set user_data \<longrightarrow> tags u' = None"
    using update_user_fields_UItem_tags_None [OF k _ f] by blast
  have 9: "\<forall>v. UItem_tags (Some v) \<in> set user_data \<longrightarrow>
      tags u' = Some (map (\<lambda>t. t\<lparr>tag_name := py_strip (tag_name t)\<rparr>) v)"
  proof (intro allI impI)
    fix v assume "UItem_tags (Some v) \<in> set user_data"
    from update_user_fields_UItem_tags_Some [OF k this f] obtain v' where
      "map_result Tag_of v = Inr v'" "tags u' = Some v'" by blast
    with map_result_Tag_of [of v v']
    show "tags u' = Some (map (\<lambda>t. t\<lparr>tag_name := py_strip (tag_name t)\<rparr>) v)"
      by simp
  qed
  have a:
    "''username'' \<notin> set (map user_item_key user_data) \<longrightarrow> username u' = username u"
    "''email'' \<notin> set (map user_item_key user_data) \<longrightarrow> email u' = email u"
    "''hashed_password'' \<notin> set (map user_item_key user_data)
       \<longrightarrow> hashed_password u' = hashed_password u"
    "''full_name'' \<notin> set (map user_item_key user_data) \<longrightarrow> full_name u' = full_name u"
    "''disabled'' \<notin> set (map user_item_key user_data) \<longrightarrow> disabled u' = disabled u"
    "''categories'' \<notin> set (map user_item_key user_data) \<longrightarrow> categories u' = categories u"
    "''tags'' \<notin> set (map user_item_key user_data) \<longrightarrow> tags u' = tags u"
    using update_user_fields_absent_username [OF f] update_user_fields_absent_email [OF f]
      update_user_fields_absent_hashed_password [OF f]
      update_user_fields_absent_full_name [OF f] update_user_fields_absent_disabled [OF f]
      update_user_fields_absent_categories [OF f] update_user_fields_absent_tags [OF f]
    by blast+
  show "\<exists>u'. r = Some u'
          \<and> user_id u' = user_id u
          \<and> user_id u' = uid
          \<and> get_user d' uid = Some u'
          \<and> (\<forall>v. UItem_username v \<in> set user_data \<longrightarrow> username u' = v)
          \<and> (\<forall>v. UItem_email v \<in> set user_data \<longrightarrow> email u' = v)
          \<and> (\<forall>v. UItem_hashed_password v \<in> set user_data \<longrightarrow> hashed_password u' = v)
          \<and> (\<forall>v. UItem_full_name v \<in> set user_data \<longrightarrow> full_name u' = v)
          \<and> (\<forall>v. UItem_disabled v \<in> set user_data \<longrightarrow> disabled u' = v)
          \<and> (UItem_categories None \<in> set user_data \<longrightarrow> categories u' = None)
          \<and> (\<forall>v. UItem_categories (Some v) \<in> set user_data \<longrightarrow>
              categories u' = Some (map (\<lambda>c. c\<lparr>cat_name := py_strip (cat_name c)\<rparr>) v))
          \<and> (UItem_tags None \<in> set user_data \<longrightarrow> tags u' = None)
          \<and> (\<forall>v. UItem_tags (Some v) \<in> set user_data \<longrightarrow>
              tags u' = Some (map (\<lambda>t. t\<lparr>tag_name := py_strip (tag_name t)\<rparr>) v))
          \<and> (''username'' \<notin> set (map user_item_key user_data) \<longrightarrow> username u' = username u)
          \<and> (''email'' \<notin> set (map user_item_key user_data) \<longrightarrow> email u' = email u)
          \<and> (''hashed_password'' \<notin> set (map user_item_key user_data) \<longrightarrow> hashed_password u' = hashed_password u)
          \<and> (''full_name'' \<notin> set (map user_item_key user_data) \<longrightarrow> full_name u' = full_name u)
          \<and> (''disabled'' \<notin> set (map user_item_key user_data) \<longrightarrow> disabled u' = disabled u)
          \<and> (''categories'' \<notin> set (map user_item_key user_data) \<longrightarrow> categories u' = categories u)
          \<and> (''tags'' \<notin> set (map user_item_key user_data) \<longrightarrow> tags u' = tags u)"
    by (rule exI [of _ u']) (intro conjI; fact)
next
  assume "''username'' \<notin> set (map user_item_key user_data)
        \<and> ''categories'' \<notin> set (map user_item_key user_data)
        \<and> ''tags'' \<notin> set (map user_item_key user_data)"
  then have n: "''username'' \<notin> set (map user_item_key user_data)"
    "''categories'' \<notin> set (map user_item_key user_data)"
    "''tags'' \<notin> set (map user_item_key user_data)"
    by simp_all
  from update_user_fields_plain [OF n(2,3)] obtain u' where
    f: "update_user_fields u user_data = Inr u'" by blast
  from update_user_fields_absent_username [OF f n(1)] have "username u' = username u" .
  with f assms(1) show "\<exists>u' d'. update_user d uid user_data = Inr (Some u', d')"
    by (simp add: update_user_def)
qed

theorem update_user_keeps_id_witness:
  "get_user sample_db 1 = Some alice
   \<and> distinct (map user_item_key [UItem_id 99, UItem_full_name ''Alice A.''])
   \<and> update_user sample_db 1 [UItem_id 99, UItem_full_name ''Alice A.'']
       = Inr (Some (alice\<lparr>full_name := ''Alice A.''\<rparr>),
              sample_db\<lparr>users := [alice\<lparr>full_name := ''Alice A.''\<rparr>, bob], commits := 1\<rparr>)
   \<and> user_id (alice\<lparr>full_name := ''Alice A.''\<rparr>) = 1"
proof -
  have g: "get_user sample_db 1 = Some alice"
    by (simp add: get_user_def sample_db_def alice_def)
  have k: "distinct (map user_item_key [UItem_id 99, UItem_full_name ''Alice A.''])"
    by simp
  have u: "update_user sample_db 1 [UItem_id 99, UItem_full_name ''Alice A.'']
       = Inr (Some (alice\<lparr>full_name := ''Alice A.''\<rparr>),
              sample_db\<lparr>users := [alice\<lparr>full_name := ''Alice A.''\<rparr>, bob], commits := 1\<rparr>)"
    by (simp add: update_user_def g commit_def write_user_def)
      (simp add: sample_db_def alice_def bob_def)
  from update_user_keeps_id [OF g k] u have "user_id (alice\<lparr>full_name := ''Alice A.''\<rparr>) = 1"
    by auto
  with g k u show ?thesis by (intro conjI)
qed

section \<open>Registering a user\<close>

lemma new_UserCreate_defaults:
  "new_UserCreate uname mail pw fname Omitted Omitted
     = Inr \<lparr>uc_username = uname, uc_email = mail, uc_password = pw, uc_full_name = fname,
            uc_categories = default_categories, uc_tags = None\<rparr>"
  by (simp add: new_UserCreate_def)

lemma create_user_row:
  assumes "create_user d uc = Inr (u, d')"
  shows "u = \<lparr>user_id = users_id_seq d, username = uc_username uc,
              email = or_blank (uc_email uc), hashed_password = uc_password uc,
              full_name = or_blank (uc_full_name uc), disabled = False,
              categories = Some (or_empty (uc_categories uc)),
              tags = Some (or_empty (uc_tags uc))\<rparr>"
    and "d' = commit (d\<lparr>users := users d @ [u], users_id_seq := users_id_seq d + 1\<rparr>)"
    and "user_id u \<notin> set (map user_id (users d))"
    and "username u \<notin> set (map username (users d))"
  using assms by (auto simp: create_user_def Let_def split: if_splits)

lemma create_user_ok:
  assumes "wf_db d" and "uc_username uc \<notin> set (map username (users d))"
  shows "\<exists>u d'. create_user d uc = Inr (u, d')"
proof -
  have "users_id_seq d \<notin> set (map user_id (users d))"
    using assms(1) by (auto simp: wf_db_def)
  with assms(2) show ?thesis
    by (simp add: create_user_def Let_def)
qed

lemma create_user_wf:
  assumes "wf_db d" and "create_user d uc = Inr (u, d')"
  shows "wf_db d'"
proof -
  note r = create_user_row [OF assms(2)]
  have i: "user_id u = users_id_seq d"
    by (simp add: r(1))
  have "\<forall>x\<in>set (users d). user_id x < users_id_seq d + 1"
    using assms(1) by (auto simp: wf_db_def)
  with assms(1) r(3,4) i show ?thesis
    by (auto simp: wf_db_def r(2) commit_def)
qed

lemma get_user_by_username_None:
  "get_user_by_username d n = None \<longleftrightarrow> n \<notin> set (map username (users d))"
  by (auto simp: get_user_by_username_def find_None_iff)

lemma register_Inr:
  assumes "register h d req = Inr (u, d')"
  shows "create_user d \<lparr>uc_username = uc_username req, uc_email = uc_email req,
            uc_password = h (uc_password req), uc_full_name = uc_full_name req,
            uc_categories = default_categories, uc_tags = None\<rparr> = Inr (u, d')"
  using assms
  by (auto simp: register_def new_UserCreate_defaults split: option.splits sum.splits)

text \<open>
  C10. Registration starts every user from the same defaults. Whatever the request
  carries (its category and tag lists included), a user the route creates is stored, as
  the last row of the table, not disabled, with an empty tag list and with the one
  category \<open>General\<close> of color \<open>#5dafb0\<close>; it has the request's username and the hash of
  the request's password. On a consistent database the route does create the user when
  the username is free, and answers 400 when it is taken.
\<close>

theorem register_defaults:
  "(register h d req = Inr (u, d') \<longrightarrow>
       disabled u = False
     \<and> tags u = Some []
     \<and> categories u = Some [\<lparr>cat_name = ''General'', cat_color = ''#5dafb0''\<rparr>]
     \<and> username u = uc_username req
     \<and> hashed_password u = h (uc_password req)
     \<and> users d' = users d @ [u])
   \<and> (wf_db d \<and> get_user_by_username d (uc_username req) = None \<longrightarrow>
        (\<exists>u d'. register h d req = Inr (u, d')))
   \<and> (get_user_by_username d (uc_username req) \<noteq> None \<longrightarrow>
        register h d req = Inl (HTTPException 400))"
proof (intro conjI impI)
  assume "register h d req = Inr (u, d')"
  note r = create_user_row(1,2) [OF register_Inr [OF this]]
  show "disabled u = False" "tags u = Some []"
    "categories u = Some [\<lparr>cat_name = ''General'', cat_color = ''#5dafb0''\<rparr>]"
    "username u = uc_username req" "hashed_password u = h (uc_password req)"
    by (simp_all add: r(1) or_empty_def default_categories_def)
  show "users d' = users d @ [u]"
    by (simp add: r(2) commit_def)
next
  assume a: "wf_db d \<and> get_user_by_username d (uc_username req) = None"
  then have "uc_username req \<notin> set (map username (users d))"
    by (simp add: get_user_by_username_None)
  with a create_user_ok [of d "\<lparr>uc_username = uc_username req, uc_email = uc_email req,
            uc_password = h (uc_password req), uc_full_name = uc_full_name req,
            uc_categories = default_categories, uc_tags = None\<rparr>"]
  obtain u d' where "create_user d \<lparr>uc_username = uc_username req, uc_email = uc_email req,
            uc_password = h (uc_password req), uc_full_name = uc_full_name req,
            uc_categories = default_categories, uc_tags = None\<rparr> = Inr (u, d')"
    by auto
  with a have "register h d req = Inr (u, d')"
    by (simp add: register_def new_UserCreate_defaults)
  then show "\<exists>u d'. register h d req = Inr (u, d')" by blast
next
  assume "get_user_by_username d (uc_username req) \<noteq> None"
  then show "register h d req = Inl (HTTPException 400)"
    by (auto simp: register_def)
qed

theorem register_defaults_witness:
  "wf_db sample_db \<and> get_user_by_username sample_db ''carol'' = None
   \<and> (\<exists>u d'. register (\<lambda>p. ''$'' @ p) sample_db
          \<lparr>uc_username = ''carol'', uc_email = None, uc_password = ''secret'',
           uc_full_name = None,
           uc_categories = Some [\<lparr>cat_name = ''Work'', cat_color = ''#FF0000''\<rparr>],
           uc_tags = Some [\<lparr>tag_name = ''urgent'', tag_color = ''#FF0000''\<rparr>]\<rparr> = Inr (u, d')
        \<and> disabled u = False \<and> tags u = Some []
        \<and> categories u = Some [\<lparr>cat_name = ''General'', cat_color = ''#5dafb0''\<rparr>]
        \<and> users d' = users sample_db @ [u])
   \<and> get_user_by_username sample_db ''alice'' \<noteq> None
   \<and> register (\<lambda>p. ''$'' @ p) sample_db
          \<lparr>uc_username = ''alice'', uc_email = None, uc_password = ''secret'',
           uc_full_name = None, uc_categories = None, uc_tags = None\<rparr>
       = Inl (HTTPException 400)"
proof -
  have w: "wf_db sample_db"
    by (simp add: wf_db_def sample_db_def alice_def bob_def ship_it_def buy_milk_def
        call_home_def)
  have n: "get_user_by_username sample_db ''carol'' = None"
    by (simp add: get_user_by_username_def sample_db_def alice_def bob_def)
  have a: "get_user_by_username sample_db ''alice'' \<noteq> None"
    by (simp add: get_user_by_username_def sample_db_def alice_def bob_def)
  have taken: "register (\<lambda>p. ''$'' @ p) sample_db
          \<lparr>uc_username = ''alice'', uc_email = None, uc_password = ''secret'',
           uc_full_name = None, uc_categories = None, uc_tags = None\<rparr>
       = Inl (HTTPException 400)"
    using register_defaults [of "\<lambda>p. ''$'' @ p" sample_db
        "\<lparr>uc_username = ''alice'', uc_email = None, uc_password = ''secret'',
           uc_full_name = None, uc_categories = None, uc_tags = None\<rparr>",
        THEN conjunct2, THEN conjunct2] a
    by simp
  from register_defaults [of "\<lambda>p. ''$'' @ p" sample_db
        "\<lparr>uc_username = ''carol'', uc_email = None, uc_password = ''secret'',
           uc_full_name = None,
           uc_categories = Some [\<lparr>cat_name = ''Work'', cat_color = ''#FF0000''\<rparr>],
           uc_tags = Some [\<lparr>tag_name = ''urgent'', tag_color = ''#FF0000''\<rparr>]\<rparr>",
        THEN conjunct2, THEN conjunct1] w n
  obtain u d' where r: "register (\<lambda>p. ''$'' @ p) sample_db
          \<lparr>uc_username = ''carol'', uc_email = None, uc_password = ''secret'',
           uc_full_name = None,
           uc_categories = Some [\<lparr>cat_name = ''Work'', cat_color = ''#FF0000''\<rparr>],
           uc_tags = Some [\<lparr>tag_name = ''urgent'', tag_color = ''#FF0000''\<rparr>]\<rparr> = Inr (u, d')"
    by auto
  from register_defaults [of "\<lambda>p. ''$'' @ p" sample_db
        "\<lparr>uc_username = ''carol'', uc_email = None, uc_password = ''secret'',
           uc_full_name = None,
           uc_categories = Some [\<lparr>cat_name = ''Work'', cat_color = ''#FF0000''\<rparr>],
           uc_tags = Some [\<lparr>tag_name = ''urgent'', tag_color = ''#FF0000''\<rparr>]\<rparr>" u d',
        THEN conjunct1] r
  have "disabled u = False \<and> tags u = Some []
        \<and> categories u = Some [\<lparr>cat_name = ''General'', cat_color = ''#5dafb0''\<rparr>]
        \<and> users d' = users sample_db @ [u]"
    by simp
  with r have "\<exists>u d'. register (\<lambda>p. ''$'' @ p) sample_db
          \<lparr>uc_username = ''carol'', uc_email = None, uc_password = ''secret'',
           uc_full_name = None,
           uc_categories = Some [\<lparr>cat_name = ''Work'', cat_color = ''#FF0000''\<rparr>],
           uc_tags = Some [\<lparr>tag_name = ''urgent'', tag_color = ''#FF0000''\<rparr>]\<rparr> = Inr (u, d')
        \<and> disabled u = False \<and> tags u = Some []
        \<and> categories u = Some [\<lparr>cat_name = ''General'', cat_color = ''#5dafb0''\<rparr>]
        \<and> users d' = users sample_db @ [u]"
    by blast
  with w n a taken show ?thesis by (intro conjI)
qed

end
